theory Spec2Isabelle
  imports Complex_Main "HOL-Library.Word"
begin

section \<open>The voice assistant of the portfolio application\<close>

text \<open>
  A shallow embedding of the realtime voice session of the component
  \<^verbatim>\<open>VoiceAssistant\<close> (file \<^verbatim>\<open>src/unnamed/part_001\<close>): the audio
  utilities \<^verbatim>\<open>decode\<close>, \<^verbatim>\<open>encode\<close> and \<^verbatim>\<open>decodeAudioData\<close>, the
  capture callback, the message handler with its playback scheduling, and the
  session life cycle (\<^verbatim>\<open>startSession\<close>, \<^verbatim>\<open>cleanup\<close>, \<^verbatim>\<open>toggleVoice\<close>).

  The browser functions the code calls (\<^verbatim>\<open>atob\<close>, \<^verbatim>\<open>btoa\<close>, typed arrays,
  \<^verbatim>\<open>createBuffer\<close>) are modelled from their standards; every such definition
  says so.  Bytes are \<open>8 word\<close>, 16-bit samples are \<open>16 word\<close>, and times are
  real numbers (seconds on the clock of the output device).
\<close>

subsection \<open>Errors\<close>

text \<open>The exceptions the modelled code paths can raise.\<close>

datatype js_error =
    InvalidCharacterError
  | RangeError
  | NotSupportedError
  | TypeError
  | NotAllowedError
  | ConnectError

subsection \<open>Base64: \<^verbatim>\<open>atob\<close> and \<^verbatim>\<open>btoa\<close>\<close>

text \<open>
  A binary string (every code unit below 256) is a \<open>string\<close>: an Isabelle
  character is one byte.  The base64 text passed to \<^verbatim>\<open>atob\<close> is a
  \<open>string\<close> as well; a code unit above 255 is not representable, and \<^verbatim>\<open>atob\<close>
  rejects every such input anyway.
\<close>

definition ascii_whitespace :: "char \<Rightarrow> bool" where
  "ascii_whitespace c \<longleftrightarrow> (of_char c :: nat) \<in> {9, 10, 12, 13, 32}"

text \<open>The base64 alphabet of RFC 4648: the character of a 6-bit value and back.\<close>

definition b64_char :: "nat \<Rightarrow> char" where
  "b64_char i =
     (if i < 26 then char_of (65 + i)
      else if i < 52 then char_of (71 + i)
      else if i < 62 then char_of (i - 4)
      else if i = 62 then CHR ''+'' else CHR ''/'')"

definition b64_value :: "char \<Rightarrow> nat option" where
  "b64_value c =
     (let n = (of_char c :: nat) in
      if 65 \<le> n \<and> n \<le> 90 then Some (n - 65)
      else if 97 \<le> n \<and> n \<le> 122 then Some (n - 71)
      else if 48 \<le> n \<and> n \<le> 57 then Some (n + 4)
      else if n = 43 then Some 62
      else if n = 47 then Some 63
      else None)"

text \<open>Three bytes become four 6-bit values; a rest of one or two bytes is
  filled with zero bits.\<close>

fun sextets :: "nat list \<Rightarrow> nat list" where
  "sextets (a # b # c # rest) =
     [a div 4, (a mod 4) * 16 + b div 16, (b mod 16) * 4 + c div 64, c mod 64] @ sextets rest"
| "sextets [a, b] = [a div 4, (a mod 4) * 16 + b div 16, (b mod 16) * 4]"
| "sextets [a] = [a div 4, (a mod 4) * 16]"
| "sextets [] = []"

text \<open>Four 6-bit values become three bytes; of a rest of three values the last
  two bits are dropped, of a rest of two values the last four bits.\<close>

fun octets :: "nat list \<Rightarrow> nat list" where
  "octets (p # q # r # s # rest) =
     [p * 4 + q div 16, (q mod 16) * 16 + r div 4, (r mod 4) * 64 + s] @ octets rest"
| "octets [p, q, r] = [p * 4 + q div 16, (q mod 16) * 16 + r div 4]"
| "octets [p, q] = [p * 4 + q div 16]"
| "octets _ = []"

definition padding :: "nat \<Rightarrow> string" where
  "padding n = replicate ((3 - n mod 3) mod 3) (CHR ''='')"

text \<open>
  \<^verbatim>\<open>btoa\<close>, from the HTML standard (forgiving-base64 encode, that is RFC 4648
  section 4 with padding).  It throws only on a code unit above 255, which a
  binary string does not have.
\<close>

definition btoa :: "string \<Rightarrow> string" where
  "btoa s = map b64_char (sextets (map of_char s)) @ padding (length s)"

text \<open>Removing one or two trailing \<open>=\<close> signs, on the reversed text.\<close>

fun strip_padding_rev :: "string \<Rightarrow> string" where
  "strip_padding_rev (x # y # r) =
     (if x = CHR ''='' then (if y = CHR ''='' then r else y # r) else x # y # r)"
| "strip_padding_rev [x] = (if x = CHR ''='' then [] else [x])"
| "strip_padding_rev [] = []"

definition strip_padding :: "string \<Rightarrow> string" where
  "strip_padding d = (if length d mod 4 = 0 then rev (strip_padding_rev (rev d)) else d)"

text \<open>
  \<^verbatim>\<open>atob\<close>, from the HTML standard (forgiving-base64 decode): ASCII
  whitespace is removed; if the length is then a multiple of 4, one or two
  trailing \<open>=\<close> are removed; a length of 1 modulo 4 or a character outside the
  alphabet throws \<^verbatim>\<open>InvalidCharacterError\<close>; left-over bits are discarded.
\<close>

definition atob :: "string \<Rightarrow> js_error + string" where
  "atob s =
     (let d = strip_padding (filter (\<lambda>c. \<not> ascii_whitespace c) s) in
      if length d mod 4 = 1 then Inl InvalidCharacterError
      else case those (map b64_value d) of
             None \<Rightarrow> Inl InvalidCharacterError
           | Some vs \<Rightarrow> Inr (map char_of (octets vs)))"

subsection \<open>The audio utilities of the component\<close>

type_synonym byte = "8 word"
type_synonym int16 = "16 word"

text \<open>\<^verbatim>\<open>decode\<close> (lines 9 to 17): \<^verbatim>\<open>atob\<close>, then the code unit of every
  character as a byte.\<close>

definition decode :: "string \<Rightarrow> js_error + byte list" where
  "decode base64 =
     (case atob base64 of
        Inl e \<Rightarrow> Inl e
      | Inr binaryString \<Rightarrow> Inr (map (\<lambda>c. word_of_nat (of_char c)) binaryString))"

text \<open>\<^verbatim>\<open>encode\<close> (lines 19 to 26): the character of every byte, then
  \<^verbatim>\<open>btoa\<close>.\<close>

definition encode :: "byte list \<Rightarrow> string" where
  "encode bytes = btoa (map (\<lambda>b. char_of (unat b)) bytes)"

text \<open>
  A sample of a \<^verbatim>\<open>Float32Array\<close>.  The finite values are real numbers; the
  conversions below are exact on them (a 16-bit integer divided by \<open>2 ^ 15\<close> and
  a 32-bit float multiplied by \<open>2 ^ 15\<close> are representable).
\<close>

datatype float = Num real | NaN | PosInfinity | NegInfinity

text \<open>Typed arrays store 16-bit integers with the low byte first.\<close>

definition le_int16 :: "byte \<Rightarrow> byte \<Rightarrow> int16" where
  "le_int16 lo hi = word_of_nat (unat lo + 256 * unat hi)"

definition int16_bytes :: "int16 \<Rightarrow> byte list" where
  "int16_bytes w = [word_of_nat (unat w mod 256), word_of_nat (unat w div 256)]"

fun int16_elements :: "byte list \<Rightarrow> int16 list" where
  "int16_elements (lo # hi # rest) = le_int16 lo hi # int16_elements rest"
| "int16_elements _ = []"

text \<open>\<^verbatim>\<open>new Int16Array(buffer)\<close>: a \<^verbatim>\<open>RangeError\<close> unless the byte length
  is a multiple of 2.  The array \<^verbatim>\<open>data\<close> owns its whole buffer, as the one
  \<^verbatim>\<open>decode\<close> returns does.\<close>

definition Int16Array_of_buffer :: "byte list \<Rightarrow> js_error + int16 list" where
  "Int16Array_of_buffer data =
     (if length data mod 2 \<noteq> 0 then Inl RangeError else Inr (int16_elements data))"

text \<open>\<^verbatim>\<open>new Uint8Array(int16.buffer)\<close>: the bytes of the samples.\<close>

definition Uint8Array_of_int16 :: "int16 list \<Rightarrow> byte list" where
  "Uint8Array_of_int16 ws = concat (map int16_bytes ws)"

text \<open>Writing a typed array out of range does nothing; reading an
  \<^verbatim>\<open>Int16Array\<close> out of range gives \<^verbatim>\<open>undefined\<close>, and
  \<^verbatim>\<open>undefined / 32768.0\<close> is \<^verbatim>\<open>NaN\<close>.\<close>

definition typed_array_set :: "'a list \<Rightarrow> nat \<Rightarrow> 'a \<Rightarrow> 'a list" where
  "typed_array_set xs i v = (if i < length xs then xs[i := v] else xs)"

definition normalized_sample :: "int16 list \<Rightarrow> nat \<Rightarrow> float" where
  "normalized_sample dataInt16 k =
     (if k < length dataInt16 then Num (real_of_int (sint (dataInt16 ! k)) / 32768) else NaN)"

text \<open>
  The output device.  \<open>currentTime\<close> is its clock when a handler reads it; the
  three limits are those of \<^verbatim>\<open>createBuffer\<close>, which the Web Audio standard
  leaves to the implementation (at least 32 channels and 8000 to 96000 Hz).
\<close>

record audio_context =
  currentTime :: real
  maxChannelCount :: nat
  minSampleRate :: nat
  maxSampleRate :: nat

record audio_buffer =
  numberOfChannels :: nat
  bufferLength :: nat
  sampleRate :: nat
  channelData :: "float list list"

definition duration :: "audio_buffer \<Rightarrow> real" where
  "duration b = real (bufferLength b) / real (sampleRate b)"

text \<open>
  \<^verbatim>\<open>ctx.createBuffer\<close>, from the Web Audio standard: a
  \<^verbatim>\<open>NotSupportedError\<close> when the channel count or the length is zero or an
  argument is outside the supported range; otherwise a buffer of zeros.
\<close>

definition createBuffer :: "audio_context \<Rightarrow> nat \<Rightarrow> nat \<Rightarrow> nat \<Rightarrow> js_error + audio_buffer" where
  "createBuffer ctx channels len rate =
     (if channels = 0 \<or> maxChannelCount ctx < channels \<or> len = 0
         \<or> rate < minSampleRate ctx \<or> maxSampleRate ctx < rate
      then Inl NotSupportedError
      else Inr \<lparr>numberOfChannels = channels, bufferLength = len, sampleRate = rate,
                channelData = replicate channels (replicate len (Num 0))\<rparr>)"

text \<open>
  The inner loop of \<^verbatim>\<open>decodeAudioData\<close> (lines 40 to 42).  \<^verbatim>\<open>frameCount\<close>
  is the quotient \<open>n / numChannels\<close> as a number, so \<^verbatim>\<open>i < frameCount\<close>
  holds for the \<open>(n + numChannels - 1) div numChannels\<close> first indices.
\<close>

definition fill_channel :: "int16 list \<Rightarrow> nat \<Rightarrow> nat \<Rightarrow> float list \<Rightarrow> float list" where
  "fill_channel dataInt16 numChannels channel channelData0 =
     fold (\<lambda>i cd. typed_array_set cd i (normalized_sample dataInt16 (i * numChannels + channel)))
          [0 ..< (length dataInt16 + numChannels - 1) div numChannels] channelData0"

text \<open>
  \<^verbatim>\<open>decodeAudioData\<close> (lines 28 to 45).  \<^verbatim>\<open>createBuffer\<close> takes its length
  as an \<^verbatim>\<open>unsigned long\<close>: the quotient is truncated and reduced modulo
  \<open>2 ^ 32\<close> (and is 0 when \<^verbatim>\<open>numChannels\<close> is 0).
\<close>

definition decodeAudioData ::
    "byte list \<Rightarrow> audio_context \<Rightarrow> nat \<Rightarrow> nat \<Rightarrow> js_error + audio_buffer" where
  "decodeAudioData data ctx rate numChannels =
     (case Int16Array_of_buffer data of
        Inl e \<Rightarrow> Inl e
      | Inr dataInt16 \<Rightarrow>
          (case createBuffer ctx numChannels
                  ((length dataInt16 div numChannels) mod 4294967296) rate of
             Inl e \<Rightarrow> Inl e
           | Inr buffer \<Rightarrow>
               Inr (buffer\<lparr>channelData :=
                      map (\<lambda>channel. fill_channel dataInt16 numChannels channel
                                       (channelData buffer ! channel))
                          [0 ..< numChannels]\<rparr>)))"

subsection \<open>The capture callback\<close>

text \<open>Storing a number into an \<^verbatim>\<open>Int16Array\<close> (ECMAScript \<^verbatim>\<open>ToInt16\<close>): not
  finite gives 0; otherwise the number is truncated towards zero and wraps
  modulo \<open>2 ^ 16\<close>.\<close>

definition truncate_number :: "real \<Rightarrow> int" where
  "truncate_number x = (if 0 \<le> x then \<lfloor>x\<rfloor> else \<lceil>x\<rceil>)"

definition ToInt16 :: "float \<Rightarrow> int16" where
  "ToInt16 x = (case x of Num r \<Rightarrow> word_of_int (truncate_number r) | _ \<Rightarrow> 0)"

text \<open>The product \<^verbatim>\<open>inputData[i] * 32768\<close> of line 135.\<close>

definition times_32768 :: "float \<Rightarrow> float" where
  "times_32768 x = (case x of Num r \<Rightarrow> Num (r * 32768) | other \<Rightarrow> other)"

definition float_to_int16 :: "float \<Rightarrow> int16" where
  "float_to_int16 v = ToInt16 (times_32768 v)"

text \<open>
  A \<^verbatim>\<open>ScriptProcessorNode\<close>, from the Web Audio standard: the node collects
  the signal at its input and fires \<^verbatim>\<open>audioprocess\<close> once for every
  \<open>bufferSize\<close> sample frames, with these frames as \<^verbatim>\<open>inputBuffer\<close>; what
  does not fill a buffer yet is not delivered.  With one input channel the signal
  is mono, and \<^verbatim>\<open>getChannelData(0)\<close> is the whole buffer.
\<close>

record script_processor =
  bufferSize :: nat
  numberOfInputChannels :: nat
  numberOfOutputChannels :: nat

definition createScriptProcessor :: "nat \<Rightarrow> nat \<Rightarrow> nat \<Rightarrow> script_processor" where
  "createScriptProcessor frames inputs outputs =
     \<lparr>bufferSize = frames, numberOfInputChannels = inputs, numberOfOutputChannels = outputs\<rparr>"

function audioprocess_frames :: "script_processor \<Rightarrow> float list \<Rightarrow> float list list" where
  "audioprocess_frames p input =
     (if bufferSize p = 0 \<or> length input < bufferSize p then []
      else take (bufferSize p) input # audioprocess_frames p (drop (bufferSize p) input))"
  by pat_completeness auto
termination
  by (relation "measure (\<lambda>(p, input). length input)") auto

record media_blob =
  blob_data :: string
  mimeType :: string

text \<open>The blob built in \<^verbatim>\<open>onaudioprocess\<close> (lines 132 to 140).\<close>

definition capture_blob :: "float list \<Rightarrow> media_blob" where
  "capture_blob inputData =
     \<lparr>blob_data = encode (Uint8Array_of_int16 (map float_to_int16 inputData)),
      mimeType = ''audio/pcm;rate=16000''\<rparr>"

subsection \<open>Messages\<close>

text \<open>
  What the handlers read of a \<^verbatim>\<open>LiveServerMessage\<close>.  Every optional field
  of the SDK's types is an \<open>option\<close>: \<open>None\<close> is \<^verbatim>\<open>undefined\<close>.
\<close>

record function_call =
  fc_id :: "string option"
  fc_name :: "string option"
  fc_args :: "(string \<times> string) list option"

record content_part =
  inlineData :: "string option option"

record server_content =
  inputTranscription :: "string option option"
  modelTurn :: "content_part list option option"
  interrupted :: bool
  turnComplete :: bool

record live_server_message =
  serverContent :: "server_content option"
  toolCall :: "function_call list option option"

text \<open>The messages the component sends on the session: a captured frame
  (\<^verbatim>\<open>sendRealtimeInput\<close>), and the response to a function call
  (\<^verbatim>\<open>sendToolResponse\<close>) with its \<^verbatim>\<open>id\<close>, \<^verbatim>\<open>name\<close> and
  \<^verbatim>\<open>response.result\<close>.\<close>

datatype outbound =
    RealtimeInput media_blob
  | ToolResponse "string option" "string option" string

subsection \<open>The state of the component and of what it acts on\<close>

datatype promise_state = NotCreated | Pending | Fulfilled | Rejected

text \<open>A playing \<^verbatim>\<open>AudioBufferSourceNode\<close>: its identity, its buffer and the
  time passed to \<^verbatim>\<open>start\<close>.\<close>

record source_node =
  node_id :: nat
  node_buffer :: audio_buffer
  start_at :: real

text \<open>
  The React state and the refs of the component (lines 82 to 89), followed by
  the objects its code acts on: the promise of \<^verbatim>\<open>ai.live.connect\<close> with
  the callbacks waiting on it, the messages sent on the session, whether the
  connection is open, the microphone streams \<^verbatim>\<open>getUserMedia\<close> has handed out
  that have not been stopped, the script processors that are connected, the
  nodes \<^verbatim>\<open>stop\<close> was called on, the calls of \<^verbatim>\<open>onCommand\<close>, and the number
  of source nodes created so far.
\<close>

record voice_assistant =
  isActive :: bool
  isConnecting :: bool
  transcript :: string
  sessionRef :: bool
  audioContexts :: bool
  nextStartTime :: real
  sources :: "source_node list"
  sessionPromise :: promise_state
  thenQueue :: "outbound list"
  sent :: "outbound list"
  connectionOpen :: bool
  liveMicStreams :: nat
  scriptProcessors :: "script_processor list"
  stopped :: "nat list"
  dispatched :: "(string option \<times> (string \<times> string) list option) list"
  nodeCount :: nat

text \<open>The component when it is mounted.\<close>

definition initial :: voice_assistant where
  "initial =
     \<lparr>isActive = False, isConnecting = False, transcript = [], sessionRef = False,
      audioContexts = False, nextStartTime = 0, sources = [],
      sessionPromise = NotCreated, thenQueue = [], sent = [], connectionOpen = False,
      liveMicStreams = 0, scriptProcessors = [], stopped = [], dispatched = [],
      nodeCount = 0\<rparr>"

text \<open>The number of script processors that are connected.\<close>

definition captureNodes :: "voice_assistant \<Rightarrow> nat" where
  "captureNodes s = length (scriptProcessors s)"

text \<open>\<^verbatim>\<open>sessionPromise.then(session => session.send...(m))\<close>: the message is
  sent once the promise is fulfilled, and never if it is rejected.\<close>

definition then_send :: "outbound \<Rightarrow> voice_assistant \<Rightarrow> voice_assistant" where
  "then_send m s =
     (case sessionPromise s of
        Fulfilled \<Rightarrow> s\<lparr>sent := sent s @ [m]\<rparr>
      | Pending \<Rightarrow> s\<lparr>thenQueue := thenQueue s @ [m]\<rparr>
      | _ \<Rightarrow> s)"

definition fulfil :: "voice_assistant \<Rightarrow> voice_assistant" where
  "fulfil s = s\<lparr>sessionPromise := Fulfilled, connectionOpen := True,
                sent := sent s @ thenQueue s, thenQueue := []\<rparr>"

subsection \<open>Teardown\<close>

text \<open>\<^verbatim>\<open>cleanup\<close> (lines 91 to 104).\<close>

definition cleanup :: "voice_assistant \<Rightarrow> voice_assistant" where
  "cleanup s =
     (let s1 = (if sessionRef s then s\<lparr>connectionOpen := False, sessionRef := False\<rparr> else s);
          s2 = s1\<lparr>isActive := False, isConnecting := False, transcript := []\<rparr>
      in s2\<lparr>stopped := stopped s2 @ map node_id (sources s2), sources := []\<rparr>)"

subsection \<open>Capture\<close>

text \<open>\<^verbatim>\<open>onaudioprocess\<close> (lines 131 to 144).\<close>

definition onaudioprocess :: "float list \<Rightarrow> voice_assistant \<Rightarrow> voice_assistant" where
  "onaudioprocess inputData s = then_send (RealtimeInput (capture_blob inputData)) s"

text \<open>A connected processor fed with a signal: the callback runs once for every
  buffer the node delivers, in their order.\<close>

definition audioprocess ::
    "script_processor \<Rightarrow> float list \<Rightarrow> voice_assistant \<Rightarrow> voice_assistant" where
  "audioprocess p input s = fold onaudioprocess (audioprocess_frames p input) s"

subsection \<open>The message handler\<close>

text \<open>A handler can throw after it has changed the state: its result is the
  exception, if any, and the state it leaves.\<close>

type_synonym outcome = "js_error option \<times> voice_assistant"

definition and_then :: "outcome \<Rightarrow> (voice_assistant \<Rightarrow> outcome) \<Rightarrow> outcome" where
  "and_then r f = (case r of (None, s) \<Rightarrow> f s | (Some e, s) \<Rightarrow> (Some e, s))"

text \<open>The host's callback: \<open>None\<close> when it returns, the exception when it
  throws.\<close>

type_synonym on_command = "string option \<Rightarrow> (string \<times> string) list option \<Rightarrow> js_error option"

text \<open>
  The callback the application passes (\<^verbatim>\<open>src/services/dbService.ts\<close>, lines
  405 to 409).  Its three actions change the page only; reading
  \<^verbatim>\<open>args.section\<close> throws a \<^verbatim>\<open>TypeError\<close> when \<^verbatim>\<open>args\<close> is undefined.
\<close>

definition app_onCommand :: on_command where
  "app_onCommand cmd args =
     (if cmd = Some ''navigateTo'' \<and> args = None then Some TypeError else None)"

text \<open>Lines 150 to 152.  Concatenating \<^verbatim>\<open>undefined\<close> appends the text
  \<^verbatim>\<open>undefined\<close>.\<close>

definition transcription :: "live_server_message \<Rightarrow> voice_assistant \<Rightarrow> voice_assistant" where
  "transcription message s =
     (case serverContent message of
        None \<Rightarrow> s
      | Some sc \<Rightarrow>
          (case inputTranscription sc of
             None \<Rightarrow> s
           | Some text \<Rightarrow>
               s\<lparr>transcript := transcript s @ '' '' @
                                (case text of None \<Rightarrow> ''undefined'' | Some t \<Rightarrow> t)\<rparr>))"

text \<open>The loop of lines 155 to 166.\<close>

fun function_calls :: "on_command \<Rightarrow> function_call list \<Rightarrow> voice_assistant \<Rightarrow> outcome" where
  "function_calls onCommand [] s = (None, s)"
| "function_calls onCommand (fc # fcs) s =
     (let s1 = s\<lparr>dispatched := dispatched s @ [(fc_name fc, fc_args fc)]\<rparr> in
      case onCommand (fc_name fc) (fc_args fc) of
        Some e \<Rightarrow> (Some e, s1)
      | None \<Rightarrow>
          function_calls onCommand fcs
            (then_send (ToolResponse (fc_id fc) (fc_name fc) ''ok'') s1))"

text \<open>Lines 154 to 167; iterating over an undefined \<^verbatim>\<open>functionCalls\<close>
  throws.\<close>

definition tool_call :: "on_command \<Rightarrow> live_server_message \<Rightarrow> voice_assistant \<Rightarrow> outcome" where
  "tool_call onCommand message s =
     (case toolCall message of
        None \<Rightarrow> (None, s)
      | Some None \<Rightarrow> (Some TypeError, s)
      | Some (Some fcs) \<Rightarrow> function_calls onCommand fcs s)"

text \<open>Line 169: \<^verbatim>\<open>message.serverContent?.modelTurn?.parts[0]?.inlineData?.data\<close>.
  Only \<^verbatim>\<open>parts\<close> is read without \<^verbatim>\<open>?.\<close>, so an undefined \<^verbatim>\<open>parts\<close>
  throws.\<close>

definition base64Audio_of :: "live_server_message \<Rightarrow> js_error + string option" where
  "base64Audio_of message =
     (case serverContent message of
        None \<Rightarrow> Inr None
      | Some sc \<Rightarrow>
          (case modelTurn sc of
             None \<Rightarrow> Inr None
           | Some None \<Rightarrow> Inl TypeError
           | Some (Some []) \<Rightarrow> Inr None
           | Some (Some (p # ps)) \<Rightarrow>
               (case inlineData p of None \<Rightarrow> Inr None | Some d \<Rightarrow> Inr d)))"

text \<open>Line 172.\<close>

definition advance_to_clock :: "audio_context \<Rightarrow> voice_assistant \<Rightarrow> voice_assistant" where
  "advance_to_clock ctx s = s\<lparr>nextStartTime := max (nextStartTime s) (currentTime ctx)\<rparr>"

text \<open>Lines 174 to 180: a new source node is started at the cursor, the cursor
  moves on by the duration of the buffer, and the node joins \<^verbatim>\<open>sources\<close>.\<close>

definition start_source :: "audio_buffer \<Rightarrow> voice_assistant \<Rightarrow> voice_assistant" where
  "start_source buffer s =
     s\<lparr>sources := sources s @
          [\<lparr>node_id = nodeCount s, node_buffer = buffer, start_at = nextStartTime s\<rparr>],
       nextStartTime := nextStartTime s + duration buffer,
       nodeCount := nodeCount s + 1\<rparr>"

text \<open>Scheduling a decoded buffer: lines 172 and 174 to 180.\<close>

definition schedule :: "audio_context \<Rightarrow> audio_buffer \<Rightarrow> voice_assistant \<Rightarrow> voice_assistant" where
  "schedule ctx buffer s = start_source buffer (advance_to_clock ctx s)"

text \<open>Lines 170 to 181, for a non-empty \<^verbatim>\<open>base64Audio\<close>.\<close>

definition audio_fragment :: "audio_context \<Rightarrow> string \<Rightarrow> voice_assistant \<Rightarrow> outcome" where
  "audio_fragment ctx base64Audio s =
     (let s1 = advance_to_clock ctx s in
      case decode base64Audio of
        Inl e \<Rightarrow> (Some e, s1)
      | Inr bytes \<Rightarrow>
          (case decodeAudioData bytes ctx 24000 1 of
             Inl e \<Rightarrow> (Some e, s1)
           | Inr buffer \<Rightarrow> (None, start_source buffer s1)))"

text \<open>Lines 169 to 181; the empty string is falsy.\<close>

definition model_audio :: "audio_context \<Rightarrow> live_server_message \<Rightarrow> voice_assistant \<Rightarrow> outcome" where
  "model_audio ctx message s =
     (case base64Audio_of message of
        Inl e \<Rightarrow> (Some e, s)
      | Inr None \<Rightarrow> (None, s)
      | Inr (Some base64Audio) \<Rightarrow>
          (if base64Audio = [] then (None, s) else audio_fragment ctx base64Audio s))"

text \<open>Lines 184 to 186.\<close>

definition interrupt :: "voice_assistant \<Rightarrow> voice_assistant" where
  "interrupt s =
     s\<lparr>stopped := stopped s @ map node_id (sources s), sources := [], nextStartTime := 0\<rparr>"

text \<open>Lines 183 to 191.\<close>

definition interruption :: "live_server_message \<Rightarrow> voice_assistant \<Rightarrow> voice_assistant" where
  "interruption message s =
     (case serverContent message of
        None \<Rightarrow> s
      | Some sc \<Rightarrow> if interrupted sc then interrupt s else s)"

definition turn_completion :: "live_server_message \<Rightarrow> voice_assistant \<Rightarrow> voice_assistant" where
  "turn_completion message s =
     (case serverContent message of
        None \<Rightarrow> s
      | Some sc \<Rightarrow> if turnComplete sc then s\<lparr>transcript := []\<rparr> else s)"

text \<open>\<^verbatim>\<open>onmessage\<close> (lines 149 to 192), run from its first line to its last
  for one message, with the output context as it is when the message is
  handled.\<close>

definition onmessage ::
    "on_command \<Rightarrow> audio_context \<Rightarrow> live_server_message \<Rightarrow> voice_assistant \<Rightarrow> outcome" where
  "onmessage onCommand ctx message s =
     and_then (and_then (tool_call onCommand message (transcription message s))
                        (model_audio ctx message))
              (\<lambda>s'. (None, turn_completion message (interruption message s')))"

text \<open>The listener of line 177: a node that has played to its end leaves
  \<^verbatim>\<open>sources\<close>.\<close>

definition ended :: "nat \<Rightarrow> voice_assistant \<Rightarrow> voice_assistant" where
  "ended n s = s\<lparr>sources := filter (\<lambda>src. node_id src \<noteq> n) (sources s)\<rparr>"

subsection \<open>Opening and closing the session\<close>

text \<open>What the browser and the remote side answer while \<^verbatim>\<open>startSession\<close>
  runs: whether the audio contexts can be created, whether the microphone is
  granted, and whether the connection is accepted.\<close>

record answers =
  audioInitOk :: bool
  micGranted :: bool
  connectAccepted :: bool

text \<open>\<^verbatim>\<open>onopen\<close> (lines 123 to 148): the processor of line 129 is created
  and connected between the microphone source and the destination.\<close>

definition onopen :: "voice_assistant \<Rightarrow> voice_assistant" where
  "onopen s = s\<lparr>isConnecting := False, isActive := True,
                scriptProcessors := scriptProcessors s @ [createScriptProcessor 4096 1 1]\<rparr>"

text \<open>\<^verbatim>\<open>onerror\<close> and \<^verbatim>\<open>onclose\<close> (lines 193 to 197).\<close>

definition onerror :: "voice_assistant \<Rightarrow> voice_assistant" where
  "onerror s = cleanup s"

definition onclose :: "voice_assistant \<Rightarrow> voice_assistant" where
  "onclose s = cleanup s"

text \<open>
  \<^verbatim>\<open>startSession\<close> (lines 106 to 216), with the exception its \<^verbatim>\<open>catch\<close>
  block has caught, if any.  The contexts are created only when there are
  none (line 111); a rejected \<^verbatim>\<open>getUserMedia\<close> or \<^verbatim>\<open>connect\<close> and a
  failing constructor all end in \<^verbatim>\<open>cleanup\<close> (line 214).
\<close>

definition startSession :: "answers \<Rightarrow> voice_assistant \<Rightarrow> outcome" where
  "startSession env s =
     (let s1 = s\<lparr>isConnecting := True\<rparr> in
      if \<not> audioContexts s1 \<and> \<not> audioInitOk env then (Some NotSupportedError, cleanup s1)
      else
        let s2 = s1\<lparr>audioContexts := True\<rparr> in
        if \<not> micGranted env then (Some NotAllowedError, cleanup s2)
        else
          let s3 = s2\<lparr>liveMicStreams := liveMicStreams s2 + 1\<rparr>;
              s4 = s3\<lparr>sessionPromise := Pending, thenQueue := []\<rparr>
          in if \<not> connectAccepted env
             then (Some ConnectError, cleanup (s4\<lparr>sessionPromise := Rejected\<rparr>))
             else (None, (fulfil (onopen s4))\<lparr>sessionRef := True\<rparr>))"

text \<open>\<^verbatim>\<open>toggleVoice\<close> (lines 218 to 221).\<close>

definition toggleVoice :: "answers \<Rightarrow> voice_assistant \<Rightarrow> voice_assistant" where
  "toggleVoice env s = (if isActive s then cleanup s else snd (startSession env s))"

subsection \<open>A concrete output device\<close>

text \<open>An output context at clock \<open>t\<close> with the least limits the Web Audio
  standard allows an implementation.\<close>

definition standard_context :: "real \<Rightarrow> audio_context" where
  "standard_context t =
     \<lparr>currentTime = t, maxChannelCount = 32, minSampleRate = 8000, maxSampleRate = 96000\<rparr>"

text \<open>The browser grants everything and the remote side accepts.\<close>

definition all_granted :: answers where
  "all_granted = \<lparr>audioInitOk = True, micGranted = True, connectAccepted = True\<rparr>"

subsection \<open>Sequences of scheduled buffers\<close>

text \<open>Scheduling decoded buffers one after the other, each with the output
  context as it is when its message is handled.\<close>

fun schedule_all ::
    "(audio_context \<times> audio_buffer) list \<Rightarrow> voice_assistant \<Rightarrow> voice_assistant" where
  "schedule_all [] s = s"
| "schedule_all ((ctx, buffer) # rest) s = schedule_all rest (schedule ctx buffer s)"

text \<open>The device clock is never ahead of the cursor when a buffer is scheduled.\<close>

fun clock_behind_cursor ::
    "(audio_context \<times> audio_buffer) list \<Rightarrow> voice_assistant \<Rightarrow> bool" where
  "clock_behind_cursor [] s = True"
| "clock_behind_cursor ((ctx, buffer) # rest) s =
     (currentTime ctx \<le> nextStartTime s \<and> clock_behind_cursor rest (schedule ctx buffer s))"

text \<open>Every node of the list starts where the one before it ends, the first
  at \<open>t\<close>.\<close>

fun gapless_from :: "real \<Rightarrow> source_node list \<Rightarrow> bool" where
  "gapless_from t [] = True"
| "gapless_from t (n # ns) =
     (start_at n = t \<and> gapless_from (t + duration (node_buffer n)) ns)"

subsection \<open>Concrete messages and buffers\<close>

text \<open>A silent mono buffer of \<open>n\<close> frames at 24000 Hz.\<close>

definition silence :: "nat \<Rightarrow> audio_buffer" where
  "silence n = \<lparr>numberOfChannels = 1, bufferLength = n, sampleRate = 24000,
               channelData = [replicate n (Num 0)]\<rparr>"

text \<open>Messages that carry one thing only: the interruption flag, function
  calls, model audio.\<close>

definition interrupted_message :: live_server_message where
  "interrupted_message =
     \<lparr>serverContent = Some \<lparr>inputTranscription = None, modelTurn = None,
                             interrupted = True, turnComplete = False\<rparr>,
      toolCall = None\<rparr>"

definition tool_call_message :: "function_call list \<Rightarrow> live_server_message" where
  "tool_call_message fcs = \<lparr>serverContent = None, toolCall = Some (Some fcs)\<rparr>"

definition audio_message :: "string \<Rightarrow> live_server_message" where
  "audio_message base64Audio =
     \<lparr>serverContent = Some \<lparr>inputTranscription = None,
                             modelTurn = Some (Some [\<lparr>inlineData = Some (Some base64Audio)\<rparr>]),
                             interrupted = False, turnComplete = False\<rparr>,
      toolCall = None\<rparr>"

text \<open>The session is open and two buffers, of 1 s and of 0.5 s, have been
  scheduled: the second arrived while the first was playing.\<close>

definition two_segments :: voice_assistant where
  "two_segments =
     schedule_all [(standard_context 0, silence 24000), (standard_context (3 / 10), silence 12000)]
       (snd (startSession all_granted initial))"

section \<open>Properties of the audio utilities\<close>

subsection \<open>Base64 arithmetic\<close>

lemma div_mult_add: "(r::nat) < m \<Longrightarrow> (x * m + r) div m = x"
  by simp

lemma mod_mult_add: "(r::nat) < m \<Longrightarrow> (x * m + r) mod m = r"
  by simp

lemma byte_hi4: "(b::nat) < 256 \<Longrightarrow> b div 16 < 16"
  by (simp add: less_mult_imp_div_less)

lemma byte_hi2: "(c::nat) < 256 \<Longrightarrow> c div 64 < 4"
  by (simp add: less_mult_imp_div_less)

lemma octets_sextets: "\<forall>a\<in>set bs. a < 256 \<Longrightarrow> octets (sextets bs) = bs"
proof (induction bs rule: sextets.induct)
  case (1 a b c rest)
  have b: "b div 16 < 16" and c: "c div 64 < 4"
    using 1(2) by (simp_all add: byte_hi4 byte_hi2)
  have e1: "a div 4 * 4 + (a mod 4 * 16 + b div 16) div 16 = a"
  proof -
    have "(a mod 4 * 16 + b div 16) div 16 = a mod 4" by (rule div_mult_add [OF b])
    then show ?thesis by (simp only: div_mult_mod_eq)
  qed
  have e2: "(a mod 4 * 16 + b div 16) mod 16 * 16 + (b mod 16 * 4 + c div 64) div 4 = b"
  proof -
    have "(a mod 4 * 16 + b div 16) mod 16 = b div 16" by (rule mod_mult_add [OF b])
    moreover have "(b mod 16 * 4 + c div 64) div 4 = b mod 16" by (rule div_mult_add [OF c])
    ultimately show ?thesis by (simp only: div_mult_mod_eq)
  qed
  have e3: "(b mod 16 * 4 + c div 64) mod 4 * 64 + c mod 64 = c"
  proof -
    have "(b mod 16 * 4 + c div 64) mod 4 = c div 64" by (rule mod_mult_add [OF c])
    then show ?thesis by (simp only: div_mult_mod_eq)
  qed
  have "octets (sextets rest) = rest" using 1 by simp
  then show ?case using e1 e2 e3 by simp
next
  case (2 a b)
  have b: "b div 16 < 16" using 2 by (simp add: byte_hi4)
  have e1: "a div 4 * 4 + (a mod 4 * 16 + b div 16) div 16 = a"
  proof -
    have "(a mod 4 * 16 + b div 16) div 16 = a mod 4" by (rule div_mult_add [OF b])
    then show ?thesis by (simp only: div_mult_mod_eq)
  qed
  have e2: "(a mod 4 * 16 + b div 16) mod 16 * 16 + (b mod 16 * 4) div 4 = b"
  proof -
    have "(a mod 4 * 16 + b div 16) mod 16 = b div 16" by (rule mod_mult_add [OF b])
    moreover have "(b mod 16 * 4) div 4 = b mod 16" by simp
    ultimately show ?thesis by (simp only: div_mult_mod_eq)
  qed
  show ?case using e1 e2 by simp
next
  case (3 a)
  show ?case by simp
next
  case 4
  show ?case by simp
qed

lemma sextets_bound: "\<forall>a\<in>set bs. a < 256 \<Longrightarrow> \<forall>v\<in>set (sextets bs). v < 64"
proof (induction bs rule: sextets.induct)
  case (1 a b c rest)
  have "a div 4 < 64" "b div 16 < 16" "c div 64 < 4" "a mod 4 < 4" "b mod 16 < 16"
    using 1(2) by (simp_all add: less_mult_imp_div_less)
  then have "a div 4 < 64" "a mod 4 * 16 + b div 16 < 64" "b mod 16 * 4 + c div 64 < 64"
    by linarith+
  then show ?case using 1 by simp
next
  case (2 a b)
  have "a div 4 < 64" "b div 16 < 16" "a mod 4 < 4" "b mod 16 < 16"
    using 2 by (simp_all add: less_mult_imp_div_less)
  then have "a div 4 < 64" "a mod 4 * 16 + b div 16 < 64" "b mod 16 * 4 < 64"
    by linarith+
  then show ?case by simp
next
  case (3 a)
  have "a div 4 < 64" "a mod 4 < 4"
    using 3 by (simp_all add: less_mult_imp_div_less)
  then have "a div 4 < 64" "a mod 4 * 16 < 64" by linarith+
  then show ?case by simp
next
  case 4
  show ?case by simp
qed

lemma length_sextets: "length (sextets bs) mod 4 \<noteq> 1"
  by (induction bs rule: sextets.induct) simp_all

lemma length_sextets_padding: "(length (sextets bs) + length (padding (length bs))) mod 4 = 0"
  by (induction bs rule: sextets.induct) (simp_all add: padding_def)

subsection \<open>The alphabet\<close>

lemma b64_value_char: "i < 64 \<Longrightarrow> b64_value (b64_char i) = Some i"
  by (auto simp: b64_value_def b64_char_def Let_def)

lemma not_ws_b64_char: "i < 64 \<Longrightarrow> \<not> ascii_whitespace (b64_char i)"
  by (auto simp: ascii_whitespace_def b64_char_def)

lemma b64_char_not_pad: "i < 64 \<Longrightarrow> b64_char i \<noteq> CHR ''=''"
  using b64_value_char [of i] by (auto simp: b64_value_def)

lemma those_b64_value:
  "\<forall>v\<in>set vs. v < 64 \<Longrightarrow> those (map b64_value (map b64_char vs)) = Some vs"
  by (induction vs) (simp_all add: b64_value_char)

subsection \<open>\<^verbatim>\<open>atob\<close> after \<^verbatim>\<open>btoa\<close>\<close>

lemma strip_padding_rev_pad:
  assumes xs: "xs = [] \<or> hd xs \<noteq> CHR ''=''" and k: "k \<le> 2"
  shows "strip_padding_rev (replicate k (CHR ''='') @ xs) = xs"
proof -
  from k consider "k = 0" | "k = 1" | "k = 2" by linarith
  then show ?thesis
  proof cases
    case 1
    then show ?thesis using xs by (cases xs rule: strip_padding_rev.cases) auto
  next
    case 2
    then show ?thesis using xs by (cases xs) auto
  next
    case 3
    then show ?thesis by (simp add: numeral_2_eq_2)
  qed
qed

lemma atob_btoa: "atob (btoa s) = Inr s"
proof -
  let ?bs = "map of_char s :: nat list"
  let ?body = "map b64_char (sextets ?bs)"
  have bytes: "\<forall>a\<in>set ?bs. a < 256" by simp
  then have sx: "\<forall>v\<in>set (sextets ?bs). v < 64" by (rule sextets_bound)
  have filt: "filter (\<lambda>c. \<not> ascii_whitespace c) (btoa s) = btoa s"
  proof -
    have "\<not> ascii_whitespace (CHR ''='')" by (simp add: ascii_whitespace_def)
    then show ?thesis
      using sx by (auto simp: btoa_def padding_def filter_id_conv not_ws_b64_char)
  qed
  have len: "length (btoa s) mod 4 = 0"
    using length_sextets_padding [of ?bs] by (simp add: btoa_def)
  have last_ok: "rev ?body = [] \<or> hd (rev ?body) \<noteq> CHR ''=''"
  proof (cases "sextets ?bs = []")
    case True
    then show ?thesis by simp
  next
    case False
    then have "hd (rev ?body) = b64_char (last (sextets ?bs))"
      by (simp add: hd_rev last_map)
    moreover have "last (sextets ?bs) < 64" using sx False by simp
    ultimately show ?thesis by (simp add: b64_char_not_pad)
  qed
  have strip: "strip_padding (btoa s) = ?body"
    using len strip_padding_rev_pad [OF last_ok, of "(3 - length s mod 3) mod 3"]
    by (simp add: strip_padding_def) (simp add: btoa_def padding_def)
  have vals: "those (map b64_value ?body) = Some (sextets ?bs)"
    using sx by (rule those_b64_value)
  have "map char_of (octets (sextets ?bs)) = s"
    by (simp add: octets_sextets [OF bytes] comp_def map_idI)
  then show ?thesis
    using length_sextets [of ?bs] vals by (simp add: atob_def filt strip)
qed

lemma unat_byte: "unat (b :: byte) < 256"
  using unsigned_less [of b] by simp

lemma decode_encode: "decode (encode bytes) = Inr bytes"
  by (simp add: decode_def encode_def atob_btoa comp_def map_idI unat_byte)

subsection \<open>What \<^verbatim>\<open>atob\<close> rejects\<close>

lemma those_None_iff: "those xs = None \<longleftrightarrow> None \<in> set xs"
  by (induction xs) (auto split: option.splits)

lemma strip_padding_rev_keeps:
  "c \<in> set xs \<Longrightarrow> c \<noteq> CHR ''='' \<Longrightarrow> c \<in> set (strip_padding_rev xs)"
  by (cases xs rule: strip_padding_rev.cases) auto

lemma strip_padding_keeps:
  "c \<in> set xs \<Longrightarrow> c \<noteq> CHR ''='' \<Longrightarrow> c \<in> set (strip_padding xs)"
  using strip_padding_rev_keeps [of c "rev xs"] by (simp add: strip_padding_def)

lemma atob_rejects:
  assumes "c \<in> set x" "\<not> ascii_whitespace c" "c \<noteq> CHR ''=''" "b64_value c = None"
  shows "atob x = Inl InvalidCharacterError"
proof -
  let ?d = "strip_padding (filter (\<lambda>c. \<not> ascii_whitespace c) x)"
  have "c \<in> set ?d" using assms by (simp add: strip_padding_keeps)
  then have "None \<in> set (map b64_value ?d)" using assms(4) by force
  then have "those (map b64_value ?d) = None" by (simp only: those_None_iff)
  then show ?thesis by (simp add: atob_def Let_def)
qed

subsection \<open>The round trip of \<^verbatim>\<open>decode\<close> and \<^verbatim>\<open>encode\<close>\<close>

text \<open>
  Claim C5 says that \<^verbatim>\<open>encode(decode(x)) == x\<close> for every valid base64 string
  and that \<^verbatim>\<open>decode\<close> fails on malformed input.  \<^verbatim>\<open>atob\<close> is forgiving: the
  text \<^verbatim>\<open>YR==\<close>, whose last character carries non-zero bits that no encoder
  writes, is decoded without an error to the single byte 97, which \<^verbatim>\<open>encode\<close>
  writes as \<^verbatim>\<open>YQ==\<close>; the unpadded \<^verbatim>\<open>YQ\<close> and the text with a line break
  behave alike.  So this input is neither rejected nor restored.
\<close>

theorem decode_then_encode_counterexample:
  "decode ''YR=='' = Inr [97] \<and> encode [97] = ''YQ=='' \<and> ''YQ=='' \<noteq> ''YR==''
   \<and> decode ''YQ'' = Inr [97] \<and> decode (''YQ=='' @ [CHR 0x0A]) = Inr [97]"
  by code_simp

lemma atob_fails_iff:
  "atob y = Inl InvalidCharacterError \<longleftrightarrow>
   length (strip_padding (filter (\<lambda>c. \<not> ascii_whitespace c) y)) mod 4 = 1
   \<or> (\<exists>c\<in>set (strip_padding (filter (\<lambda>c. \<not> ascii_whitespace c) y)). b64_value c = None)"
proof -
  let ?d = "strip_padding (filter (\<lambda>c. \<not> ascii_whitespace c) y)"
  have t: "those (map b64_value ?d) = None \<longleftrightarrow> (\<exists>c\<in>set ?d. b64_value c = None)"
  proof -
    have "None \<in> set (map b64_value ?d) \<longleftrightarrow> (\<exists>c\<in>set ?d. b64_value c = None)"
      by (simp only: set_map image_iff) (rule bex_cong [OF refl], rule eq_commute)
    then show ?thesis by (simp only: those_None_iff)
  qed
  show ?thesis
  proof (cases "length ?d mod 4 = 1")
    case True
    then show ?thesis by (simp add: atob_def Let_def)
  next
    case False
    show ?thesis
    proof (cases "those (map b64_value ?d)")
      case None
      with t have "\<exists>c\<in>set ?d. b64_value c = None" by (simp only: simp_thms)
      with None False show ?thesis by (simp add: atob_def Let_def)
    next
      case (Some vs)
      with t have "\<not> (\<exists>c\<in>set ?d. b64_value c = None)" by (simp only: option.simps simp_thms)
      with Some False show ?thesis by (simp add: atob_def Let_def)
    qed
  qed
qed

lemma decode_fails_iff:
  "decode y = Inl InvalidCharacterError \<longleftrightarrow> atob y = Inl InvalidCharacterError"
  by (simp add: decode_def split: sum.splits)

lemma decode_succeeds_iff:
  "(\<exists>b. decode y = Inr b) \<longleftrightarrow> decode y \<noteq> Inl InvalidCharacterError"
proof (cases "atob y")
  case (Inl e)
  then have "e = InvalidCharacterError"
    by (simp add: atob_def Let_def split: if_splits option.splits)
  then show ?thesis using Inl by (simp add: decode_def)
next
  case (Inr t)
  then show ?thesis by (simp add: decode_def)
qed

lemma strip_padding_cases:
  "length d mod 4 \<noteq> 0 \<Longrightarrow> strip_padding d = d"
  "length (d @ ''=='') mod 4 = 0 \<Longrightarrow> strip_padding (d @ ''=='') = d"
  "length (d @ ''='') mod 4 = 0 \<Longrightarrow> d = [] \<or> last d \<noteq> CHR ''='' \<Longrightarrow>
   strip_padding (d @ ''='') = d"
  "length d mod 4 = 0 \<Longrightarrow> d = [] \<or> last d \<noteq> CHR ''='' \<Longrightarrow> strip_padding d = d"
proof -
  show "length d mod 4 \<noteq> 0 \<Longrightarrow> strip_padding d = d"
    by (simp add: strip_padding_def)
  show "length (d @ ''=='') mod 4 = 0 \<Longrightarrow> strip_padding (d @ ''=='') = d"
    by (simp add: strip_padding_def)
  show "strip_padding (d @ ''='') = d"
    if "length (d @ ''='') mod 4 = 0" "d = [] \<or> last d \<noteq> CHR ''=''"
  proof (cases "rev d")
    case Nil
    then show ?thesis using that(1) by (simp add: strip_padding_def)
  next
    case (Cons x r)
    then have d: "d = rev r @ [x]" by (simp add: rev_eq_Cons_iff)
    then have "x \<noteq> CHR ''=''" using that(2) by simp
    then show ?thesis using that(1) by (simp add: strip_padding_def d)
  qed
  show "strip_padding d = d"
    if "length d mod 4 = 0" "d = [] \<or> last d \<noteq> CHR ''=''"
  proof (cases "rev d")
    case Nil
    then show ?thesis by (simp add: strip_padding_def)
  next
    case (Cons x r)
    then have d: "d = rev r @ [x]" by (simp add: rev_eq_Cons_iff)
    then have x: "x \<noteq> CHR ''=''" using that(2) by simp
    have "strip_padding_rev (x # r) = x # r" using x by (cases r) simp_all
    then show ?thesis using that(1) by (simp add: strip_padding_def d)
  qed
qed

text \<open>
  Claim C5, amended: \<^verbatim>\<open>decode\<close> is a left inverse of \<^verbatim>\<open>encode\<close>, so
  \<^verbatim>\<open>encode(decode(x)) == x\<close> holds for every \<open>x\<close> that \<^verbatim>\<open>encode\<close> produces (the
  canonical, padded base64 texts).  \<^verbatim>\<open>decode\<close> fails, with
  \<^verbatim>\<open>InvalidCharacterError\<close>, exactly on the malformed texts: those that, once
  ASCII whitespace is removed and then, if the length is a multiple of 4, one
  or two trailing \<open>=\<close> are removed, have a length of 1 modulo 4 or still hold a
  character outside the base64 alphabet, a remaining \<open>=\<close> included; in
  particular on every text with a character that is neither in the alphabet nor
  \<open>=\<close> nor whitespace.  On every other text it returns bytes.
\<close>

theorem decode_encode_roundtrip:
  "decode (encode bytes) = Inr bytes
   \<and> (case decode (encode bytes) of Inl e \<Rightarrow> False | Inr b \<Rightarrow> encode b = encode bytes)
   \<and> (c \<in> set y \<and> \<not> ascii_whitespace c \<and> c \<noteq> CHR ''='' \<and> b64_value c = None
        \<longrightarrow> decode y = Inl InvalidCharacterError)
   \<and> (decode y = Inl InvalidCharacterError \<longleftrightarrow>
        length (strip_padding (filter (\<lambda>c. \<not> ascii_whitespace c) y)) mod 4 = 1
        \<or> (\<exists>c\<in>set (strip_padding (filter (\<lambda>c. \<not> ascii_whitespace c) y)).
              b64_value c = None))
   \<and> ((\<exists>b. decode y = Inr b) \<longleftrightarrow> decode y \<noteq> Inl InvalidCharacterError)
   \<and> b64_value (CHR ''='') = None
   \<and> (length d mod 4 \<noteq> 0 \<longrightarrow> strip_padding d = d)
   \<and> (length (d @ ''=='') mod 4 = 0 \<longrightarrow> strip_padding (d @ ''=='') = d)
   \<and> (length (d @ ''='') mod 4 = 0 \<and> (d = [] \<or> last d \<noteq> CHR ''='')
        \<longrightarrow> strip_padding (d @ ''='') = d)
   \<and> (length d mod 4 = 0 \<and> (d = [] \<or> last d \<noteq> CHR ''='') \<longrightarrow> strip_padding d = d)"
proof -
  have f: "decode y = Inl InvalidCharacterError"
    if "c \<in> set y" "\<not> ascii_whitespace c" "c \<noteq> CHR ''=''" "b64_value c = None"
    using atob_rejects [OF that] by (simp add: decode_def)
  have c1: "decode (encode bytes) = Inr bytes" by (rule decode_encode)
  have c2: "case decode (encode bytes) of Inl e \<Rightarrow> False | Inr b \<Rightarrow> encode b = encode bytes"
    by (simp add: decode_encode)
  have c3: "c \<in> set y \<and> \<not> ascii_whitespace c \<and> c \<noteq> CHR ''='' \<and> b64_value c = None
      \<longrightarrow> decode y = Inl InvalidCharacterError"
    using f by blast
  have c4: "decode y = Inl InvalidCharacterError \<longleftrightarrow>
      length (strip_padding (filter (\<lambda>c. \<not> ascii_whitespace c) y)) mod 4 = 1
      \<or> (\<exists>c\<in>set (strip_padding (filter (\<lambda>c. \<not> ascii_whitespace c) y)).
            b64_value c = None)"
    by (simp only: decode_fails_iff atob_fails_iff)
  have c5: "(\<exists>b. decode y = Inr b) \<longleftrightarrow> decode y \<noteq> Inl InvalidCharacterError"
    by (rule decode_succeeds_iff)
  have c6: "b64_value (CHR ''='') = None" by (simp add: b64_value_def)
  have c7: "length d mod 4 \<noteq> 0 \<longrightarrow> strip_padding d = d"
    by (intro impI, (elim conjE)?) (rule strip_padding_cases(1))
  have c8: "length (d @ ''=='') mod 4 = 0 \<longrightarrow> strip_padding (d @ ''=='') = d"
    by (intro impI, (elim conjE)?) (rule strip_padding_cases(2))
  have c9: "length (d @ ''='') mod 4 = 0 \<and> (d = [] \<or> last d \<noteq> CHR ''='')
      \<longrightarrow> strip_padding (d @ ''='') = d"
    by (intro impI, (elim conjE)?) (rule strip_padding_cases(3))
  have c10: "length d mod 4 = 0 \<and> (d = [] \<or> last d \<noteq> CHR ''='') \<longrightarrow> strip_padding d = d"
    by (intro impI, (elim conjE)?) (rule strip_padding_cases(4))
  from c1 c2 c3 c4 c5 c6 c7 c8 c9 c10 show ?thesis by (intro conjI)
qed

theorem decode_encode_roundtrip_witness:
  "decode (encode [104, 105]) = Inr [104, 105]
   \<and> CHR ''*'' \<in> set ''aG*p'' \<and> \<not> ascii_whitespace (CHR ''*'') \<and> b64_value (CHR ''*'') = None
   \<and> decode ''aG*p'' = Inl InvalidCharacterError
   \<and> length (strip_padding (filter (\<lambda>c. \<not> ascii_whitespace c) ''A'')) mod 4 = 1
   \<and> decode ''A'' = Inl InvalidCharacterError
   \<and> length (strip_padding (filter (\<lambda>c. \<not> ascii_whitespace c) ''QUJDR'')) mod 4 = 1
   \<and> decode ''QUJDR'' = Inl InvalidCharacterError
   \<and> strip_padding (filter (\<lambda>c. \<not> ascii_whitespace c) ''YQ='') = ''YQ=''
   \<and> decode ''YQ='' = Inl InvalidCharacterError
   \<and> strip_padding (filter (\<lambda>c. \<not> ascii_whitespace c) ''Y=Q='') = ''Y=Q''
   \<and> decode ''Y=Q='' = Inl InvalidCharacterError
   \<and> length ''abc'' mod 4 \<noteq> 0 \<and> strip_padding ''abc'' = ''abc''
   \<and> length (''YQ'' @ ''=='') mod 4 = 0 \<and> strip_padding (''YQ'' @ ''=='') = ''YQ''
   \<and> length (''YWI'' @ ''='') mod 4 = 0 \<and> last ''YWI'' \<noteq> CHR ''=''
   \<and> strip_padding (''YWI'' @ ''='') = ''YWI''
   \<and> length ''YWJj'' mod 4 = 0 \<and> last ''YWJj'' \<noteq> CHR ''='' \<and> strip_padding ''YWJj'' = ''YWJj''
   \<and> decode ''YWJj'' \<noteq> Inl InvalidCharacterError
   \<and> decode ''YWJj'' = Inr [97, 98, 99]"
proof -
  have w: "filter (\<lambda>c. \<not> ascii_whitespace c) ''A'' = ''A''"
    "filter (\<lambda>c. \<not> ascii_whitespace c) ''QUJDR'' = ''QUJDR''"
    "filter (\<lambda>c. \<not> ascii_whitespace c) ''YQ='' = ''YQ=''"
    "filter (\<lambda>c. \<not> ascii_whitespace c) ''Y=Q='' = ''Y=Q=''"
    by (simp_all add: ascii_whitespace_def)
  have s: "strip_padding ''A'' = ''A''" "strip_padding ''QUJDR'' = ''QUJDR''"
    "strip_padding ''YQ='' = ''YQ=''" "strip_padding ''Y=Q='' = ''Y=Q''"
    by (simp_all add: strip_padding_def)
  have l: "length (strip_padding (filter (\<lambda>c. \<not> ascii_whitespace c) ''A'')) mod 4 = 1"
    "length (strip_padding (filter (\<lambda>c. \<not> ascii_whitespace c) ''QUJDR'')) mod 4 = 1"
    by (simp_all only: w s) simp_all
  have e: "b64_value (CHR ''='') = None" by (simp add: b64_value_def)
  have m1: "\<exists>c\<in>set (strip_padding (filter (\<lambda>c. \<not> ascii_whitespace c) ''YQ='')).
      b64_value c = None"
    by (simp only: w s) (simp add: e)
  have m2: "\<exists>c\<in>set (strip_padding (filter (\<lambda>c. \<not> ascii_whitespace c) ''Y=Q='')).
      b64_value c = None"
    by (simp only: w s) (simp add: e)
  have h: "CHR ''*'' \<in> set ''aG*p'' \<and> \<not> ascii_whitespace (CHR ''*'')
      \<and> CHR ''*'' \<noteq> CHR ''='' \<and> b64_value (CHR ''*'') = None"
    by (simp add: ascii_whitespace_def b64_value_def)
  have n: "length ''abc'' mod 4 \<noteq> 0" "length (''YQ'' @ ''=='') mod 4 = 0"
    "length (''YWI'' @ ''='') mod 4 = 0" "last ''YWI'' \<noteq> CHR ''=''"
    "length ''YWJj'' mod 4 = 0" "last ''YWJj'' \<noteq> CHR ''=''"
    by simp_all
  have v: "decode ''YWJj'' = Inr [97, 98, 99]" by code_simp
  then have nv: "decode ''YWJj'' \<noteq> Inl InvalidCharacterError" by simp
  note t1 = decode_encode_roundtrip
    [where bytes = "[104, 105]" and c = "CHR ''*''" and y = "''aG*p''"]
  note t2 = decode_encode_roundtrip [where y = "''A''" and d = "''abc''"]
  note t3 = decode_encode_roundtrip [where y = "''QUJDR''" and d = "''YQ''"]
  note t4 = decode_encode_roundtrip [where y = "''YQ=''" and d = "''YWI''"]
  note t5 = decode_encode_roundtrip [where y = "''Y=Q=''" and d = "''YWJj''"]
  have 1: "decode (encode [104, 105]) = Inr [104, 105]"
    by (rule t1 [THEN conjunct1])
  have 2: "decode ''aG*p'' = Inl InvalidCharacterError"
    by (rule t1 [THEN conjunct2, THEN conjunct2, THEN conjunct1, THEN mp, OF h])
  have 3: "decode ''A'' = Inl InvalidCharacterError"
    by (rule t2 [THEN conjunct2, THEN conjunct2, THEN conjunct2, THEN conjunct1, THEN iffD2,
          OF disjI1, OF l(1)])
  have 4: "decode ''QUJDR'' = Inl InvalidCharacterError"
    by (rule t3 [THEN conjunct2, THEN conjunct2, THEN conjunct2, THEN conjunct1, THEN iffD2,
          OF disjI1, OF l(2)])
  have 5: "decode ''YQ='' = Inl InvalidCharacterError"
    by (rule t4 [THEN conjunct2, THEN conjunct2, THEN conjunct2, THEN conjunct1, THEN iffD2,
          OF disjI2, OF m1])
  have 6: "decode ''Y=Q='' = Inl InvalidCharacterError"
    by (rule t5 [THEN conjunct2, THEN conjunct2, THEN conjunct2, THEN conjunct1, THEN iffD2,
          OF disjI2, OF m2])
  have 7: "strip_padding ''abc'' = ''abc''"
    by (rule t2 [THEN conjunct2, THEN conjunct2, THEN conjunct2, THEN conjunct2, THEN conjunct2,
          THEN conjunct2, THEN conjunct1, THEN mp, OF n(1)])
  have 8: "strip_padding (''YQ'' @ ''=='') = ''YQ''"
    by (rule t3 [THEN conjunct2, THEN conjunct2, THEN conjunct2, THEN conjunct2, THEN conjunct2,
          THEN conjunct2, THEN conjunct2, THEN conjunct1, THEN mp, OF n(2)])
  have 9: "strip_padding (''YWI'' @ ''='') = ''YWI''"
    by (rule t4 [THEN conjunct2, THEN conjunct2, THEN conjunct2, THEN conjunct2, THEN conjunct2,
          THEN conjunct2, THEN conjunct2, THEN conjunct2, THEN conjunct1, THEN mp,
          OF conjI, OF n(3) disjI2, OF n(4)])
  have 10: "strip_padding ''YWJj'' = ''YWJj''"
    by (rule t5 [THEN conjunct2, THEN conjunct2, THEN conjunct2, THEN conjunct2, THEN conjunct2,
          THEN conjunct2, THEN conjunct2, THEN conjunct2, THEN conjunct2, THEN mp,
          OF conjI, OF n(5) disjI2, OF n(6)])
  have sw: "strip_padding (filter (\<lambda>c. \<not> ascii_whitespace c) ''YQ='') = ''YQ=''"
    "strip_padding (filter (\<lambda>c. \<not> ascii_whitespace c) ''Y=Q='') = ''Y=Q''"
    by (simp_all only: w s)
  have h1: "CHR ''*'' \<in> set ''aG*p''" and h2: "\<not> ascii_whitespace (CHR ''*'')"
    and h4: "b64_value (CHR ''*'') = None"
    using h by (rule conjunct1, rule conjunct2 [THEN conjunct1],
      rule conjunct2 [THEN conjunct2, THEN conjunct2])
  from 1 h1 h2 h4 2 l 3 4 sw 5 6 n 7 8 9 10 nv v show ?thesis by (intro conjI)
qed

section \<open>Properties of the capture path\<close>

lemma truncate_number_bounds:
  assumes "- 1 \<le> v" "v < 1"
  shows "- 32768 \<le> truncate_number (v * 32768)" "truncate_number (v * 32768) < 32768"
  using assms
  by (auto simp: truncate_number_def floor_less_iff le_floor_iff ceiling_less_iff le_ceiling_iff)

lemma truncate_number_of_int: "truncate_number (real_of_int k) = k"
  by (simp add: truncate_number_def)

lemma sint_word16: "- 32768 \<le> k \<Longrightarrow> k < 32768 \<Longrightarrow> sint (word_of_int k :: int16) = k"
  by (simp add: sint_sbintrunc' signed_take_bit_int_eq_self)

lemma float_to_int16_Num: "float_to_int16 (Num v) = word_of_int (truncate_number (v * 32768))"
  by (simp add: float_to_int16_def times_32768_def ToInt16_def)

text \<open>
  Claim C10: the conversion of line 135 multiplies by 32768 and does not clamp.
  For a sample \<open>v\<close> with \<open>-1 \<le> v < 1\<close> the stored 16-bit value is \<open>v * 32768\<close>
  truncated towards zero, hence \<open>v * 32768\<close> itself when that is an integer;
  the full-scale sample \<open>1.0\<close> gives 32768, which wraps to \<open>-32768\<close>, the value
  of the sample \<open>-1.0\<close>.
\<close>

theorem float_to_int16_unclamped:
  "(- 1 \<le> v \<and> v < 1 \<longrightarrow> sint (float_to_int16 (Num v)) = truncate_number (v * 32768))
   \<and> (- 1 \<le> v \<and> v < 1 \<and> v * 32768 = real_of_int k \<longrightarrow> sint (float_to_int16 (Num v)) = k)
   \<and> float_to_int16 (Num 1) = word_of_int 32768
   \<and> sint (float_to_int16 (Num 1)) = - 32768
   \<and> float_to_int16 (Num 1) = float_to_int16 (Num (- 1))"
proof -
  have a: "sint (float_to_int16 (Num v)) = truncate_number (v * 32768)"
    if "- 1 \<le> v" "v < 1"
    using truncate_number_bounds [OF that] by (simp only: float_to_int16_Num sint_word16)
  have b: "sint (float_to_int16 (Num v)) = k"
    if "- 1 \<le> v" "v < 1" "v * 32768 = real_of_int k"
    using a [OF that(1,2)] that(3) by (simp add: truncate_number_of_int)
  have c: "float_to_int16 (Num 1) = word_of_int 32768"
    "sint (float_to_int16 (Num 1)) = - 32768"
    "float_to_int16 (Num 1) = float_to_int16 (Num (- 1))"
    by (simp_all add: float_to_int16_Num truncate_number_def)
  show ?thesis using a b c by blast
qed

theorem float_to_int16_unclamped_witness:
  "- 1 \<le> (1 / 2 :: real) \<and> (1 / 2 :: real) < 1 \<and> (1 / 2) * 32768 = real_of_int 16384
   \<and> sint (float_to_int16 (Num (1 / 2))) = 16384
   \<and> sint (float_to_int16 (Num 1)) = - 32768"
  using float_to_int16_unclamped [of "1 / 2" 16384] by simp

section \<open>Properties of \<^verbatim>\<open>decodeAudioData\<close>\<close>

subsection \<open>The loop over one channel\<close>

lemma length_typed_array_set: "length (typed_array_set xs i v) = length xs"
  by (simp add: typed_array_set_def)

lemma nth_typed_array_set:
  "k < length xs \<Longrightarrow> typed_array_set xs i v ! k = (if k = i then v else xs ! k)"
  by (simp add: typed_array_set_def)

lemma length_fold_set:
  "length (fold (\<lambda>i cd. typed_array_set cd i (f i)) [0 ..< u] cd) = length cd"
  by (induction u) (simp_all add: length_typed_array_set)

lemma nth_fold_set:
  "k < length cd \<Longrightarrow>
   fold (\<lambda>i cd. typed_array_set cd i (f i)) [0 ..< u] cd ! k = (if k < u then f k else cd ! k)"
  by (induction u) (simp_all add: nth_typed_array_set length_fold_set less_Suc_eq)

lemma length_int16_elements: "length (int16_elements data) = length data div 2"
  by (induction data rule: int16_elements.induct) simp_all

lemma frame_index_in_range:
  assumes "i < n div c" "ch < c"
  shows "i * c + ch < (n::nat)"
proof -
  have "Suc i * c \<le> n div c * c" using assms(1) by (simp only: Suc_leI mult_le_mono1)
  also have "\<dots> \<le> n" by simp
  finally show ?thesis using assms(2) by simp
qed

lemma frames_le_loop_bound: "0 < c \<Longrightarrow> n div c \<le> (n + c - 1) div (c::nat)"
  by (rule div_le_mono) simp

lemma fill_channel_eq:
  assumes c: "0 < c" and ch: "ch < c" and fr: "frames \<le> length d div c"
    and len: "length cd0 = frames"
  shows "fill_channel d c ch cd0 =
         map (\<lambda>i. Num (real_of_int (sint (d ! (i * c + ch))) / 32768)) [0 ..< frames]"
proof (rule nth_equalityI)
  show "length (fill_channel d c ch cd0) =
        length (map (\<lambda>i. Num (real_of_int (sint (d ! (i * c + ch))) / 32768)) [0 ..< frames])"
    by (simp add: fill_channel_def length_fold_set len)
next
  fix i assume "i < length (fill_channel d c ch cd0)"
  then have i: "i < frames" by (simp add: fill_channel_def length_fold_set len)
  then have "i < length d div c" using fr by simp
  then have k: "i * c + ch < length d" using ch by (rule frame_index_in_range)
  have "i < (length d + c - 1) div c"
    using \<open>i < length d div c\<close> frames_le_loop_bound [OF c, of "length d"] by simp
  then have "fill_channel d c ch cd0 ! i = normalized_sample d (i * c + ch)"
    using i by (simp add: fill_channel_def nth_fold_set len)
  then show "fill_channel d c ch cd0 ! i =
        map (\<lambda>i. Num (real_of_int (sint (d ! (i * c + ch))) / 32768)) [0 ..< frames] ! i"
    using k i by (simp add: normalized_sample_def)
qed

lemma sample_range:
  "- 1 \<le> real_of_int (sint (w :: int16)) / 32768 \<and> real_of_int (sint w) / 32768 < 1"
proof -
  have "- 32768 \<le> sint w" "sint w < 32768"
    using sint_ge [of w] sint_lt [of w] by simp_all
  then have "real_of_int (- 32768) \<le> real_of_int (sint w)"
    "real_of_int (sint w) < real_of_int 32768"
    by (simp_all only: of_int_le_iff of_int_less_iff)
  then show ?thesis by (simp del: of_int_sint)
qed

subsection \<open>The three outcomes\<close>

lemma decodeAudioData_ok:
  assumes "even (length data)" "0 < c" "c \<le> maxChannelCount ctx"
    "minSampleRate ctx \<le> rate" "rate \<le> maxSampleRate ctx"
    "0 < (length data div 2 div c) mod 4294967296"
  shows "decodeAudioData data ctx rate c =
     Inr \<lparr>numberOfChannels = c,
          bufferLength = (length data div 2 div c) mod 4294967296,
          sampleRate = rate,
          channelData =
            map (\<lambda>ch. map (\<lambda>i. Num (real_of_int (sint (int16_elements data ! (i * c + ch))) / 32768))
                           [0 ..< (length data div 2 div c) mod 4294967296])
                [0 ..< c]\<rparr>"
proof -
  let ?d = "int16_elements data"
  let ?frames = "(length data div 2 div c) mod 4294967296"
  have fr: "?frames \<le> length ?d div c" by (simp add: length_int16_elements)
  have ch: "fill_channel ?d c ch (replicate ?frames (Num 0)) =
            map (\<lambda>i. Num (real_of_int (sint (?d ! (i * c + ch))) / 32768)) [0 ..< ?frames]"
    if "ch < c" for ch
    by (rule fill_channel_eq [OF assms(2) that fr]) simp
  have "map (\<lambda>ch. fill_channel ?d c ch (replicate c (replicate ?frames (Num 0)) ! ch)) [0 ..< c] =
        map (\<lambda>ch. map (\<lambda>i. Num (real_of_int (sint (?d ! (i * c + ch))) / 32768)) [0 ..< ?frames])
            [0 ..< c]"
    by (rule map_cong) (simp_all add: ch)
  then show ?thesis
    using assms by (simp add: decodeAudioData_def Int16Array_of_buffer_def createBuffer_def
        length_int16_elements)
qed

lemma decodeAudioData_odd:
  "odd (length data) \<Longrightarrow> decodeAudioData data ctx rate c = Inl RangeError"
  by (simp add: decodeAudioData_def Int16Array_of_buffer_def odd_iff_mod_2_eq_one)

lemma decodeAudioData_empty:
  "even (length data) \<Longrightarrow> (length data div 2 div c) mod 4294967296 = 0 \<Longrightarrow>
   decodeAudioData data ctx rate c = Inl NotSupportedError"
  by (simp add: decodeAudioData_def Int16Array_of_buffer_def createBuffer_def length_int16_elements)

lemma upt_0_2: "[0 ..< 2] = [0, Suc 0]"
  by (simp add: numeral_2_eq_2)

text \<open>
  Claim C4 says that \<^verbatim>\<open>toPCMBuffer\<close> (\<^verbatim>\<open>decodeAudioData\<close>) fails whenever the
  byte length is not a multiple of \<open>channelCount * 2\<close>, and gives \<open>n / c\<close> frames
  otherwise.  Six bytes for two channels are three samples, not a multiple of
  four bytes: the code returns a buffer of one frame per channel and drops the
  third sample.  And no bytes at all, a multiple of anything, are not turned
  into a buffer of zero frames: \<^verbatim>\<open>createBuffer\<close> refuses the length 0.
\<close>

theorem decodeAudioData_partial_frame_counterexample:
  "length [1, 0, 2, 0, 3, 0 :: byte] mod (2 * 2) \<noteq> 0
   \<and> decodeAudioData [1, 0, 2, 0, 3, 0] (standard_context 0) 24000 2 =
       Inr \<lparr>numberOfChannels = 2, bufferLength = 1, sampleRate = 24000,
            channelData = [[Num (1 / 32768)], [Num (2 / 32768)]]\<rparr>
   \<and> length ([] :: byte list) mod (1 * 2) = 0
   \<and> decodeAudioData [] (standard_context 0) 24000 1 = Inl NotSupportedError"
  by (simp add: decodeAudioData_def Int16Array_of_buffer_def createBuffer_def standard_context_def
       fill_channel_def typed_array_set_def normalized_sample_def le_int16_def upt_0_2)

text \<open>
  Claim C4, amended.  Let the byte buffer have an even length, holding
  \<open>n = length / 2\<close> little-endian 16-bit samples, let the channel count \<open>c\<close> and
  the rate be supported by the device, and let \<open>n div c\<close> be at least 1 (and
  below \<open>2 ^ 32\<close>).  Then \<^verbatim>\<open>decodeAudioData\<close> returns a buffer of \<open>c\<close> channels
  of \<open>n div c\<close> frames, frame \<open>i\<close> of channel \<open>ch\<close> being sample \<open>i * c + ch\<close>
  divided by 32768; every such quotient lies in \<open>[-1, 1)\<close>.  The call fails
  with \<^verbatim>\<open>RangeError\<close> when the byte length is odd, which for one channel is
  when it is not a multiple of \<open>channelCount * 2\<close>, and with
  \<^verbatim>\<open>NotSupportedError\<close> when the frame count is 0.
\<close>

theorem decodeAudioData_frames:
  "(even (length data) \<and> 0 < c \<and> c \<le> maxChannelCount ctx
      \<and> minSampleRate ctx \<le> rate \<and> rate \<le> maxSampleRate ctx
      \<and> 0 < length data div 2 div c \<and> length data div 2 div c < 4294967296
    \<longrightarrow> decodeAudioData data ctx rate c =
          Inr \<lparr>numberOfChannels = c, bufferLength = length data div 2 div c, sampleRate = rate,
               channelData =
                 map (\<lambda>ch. map (\<lambda>i. Num (real_of_int (sint (int16_elements data ! (i * c + ch)))
                                            / 32768))
                                [0 ..< length data div 2 div c])
                     [0 ..< c]\<rparr>)
   \<and> - 1 \<le> real_of_int (sint (w :: int16)) / 32768 \<and> real_of_int (sint w) / 32768 < 1
   \<and> (odd (length data) \<longrightarrow> decodeAudioData data ctx rate c = Inl RangeError)
   \<and> (length data mod (1 * 2) \<noteq> 0 \<longrightarrow> decodeAudioData data ctx rate 1 = Inl RangeError)
   \<and> (even (length data) \<and> (length data div 2 div c) mod 4294967296 = 0
        \<longrightarrow> decodeAudioData data ctx rate c = Inl NotSupportedError)"
proof -
  have ok: "decodeAudioData data ctx rate c =
          Inr \<lparr>numberOfChannels = c, bufferLength = length data div 2 div c, sampleRate = rate,
               channelData =
                 map (\<lambda>ch. map (\<lambda>i. Num (real_of_int (sint (int16_elements data ! (i * c + ch)))
                                            / 32768))
                                [0 ..< length data div 2 div c])
                     [0 ..< c]\<rparr>"
    if "even (length data)" "0 < c" "c \<le> maxChannelCount ctx"
      "minSampleRate ctx \<le> rate" "rate \<le> maxSampleRate ctx"
      "0 < length data div 2 div c" "length data div 2 div c < 4294967296"
  proof -
    from that(7) have m: "(length data div 2 div c) mod 4294967296 = length data div 2 div c"
      by simp
    from decodeAudioData_ok [OF that(1-5), unfolded m, OF that(6)] show ?thesis .
  qed
  show ?thesis
  proof (intro conjI impI)
    assume h: "even (length data) \<and> 0 < c \<and> c \<le> maxChannelCount ctx
      \<and> minSampleRate ctx \<le> rate \<and> rate \<le> maxSampleRate ctx
      \<and> 0 < length data div 2 div c \<and> length data div 2 div c < 4294967296"
    show "decodeAudioData data ctx rate c =
          Inr \<lparr>numberOfChannels = c, bufferLength = length data div 2 div c, sampleRate = rate,
               channelData =
                 map (\<lambda>ch. map (\<lambda>i. Num (real_of_int (sint (int16_elements data ! (i * c + ch)))
                                            / 32768))
                                [0 ..< length data div 2 div c])
                     [0 ..< c]\<rparr>"
      by (rule ok) (use h in simp_all)
  next
    show "- 1 \<le> real_of_int (sint w) / 32768" using sample_range [of w] by (rule conjunct1)
  next
    show "real_of_int (sint w) / 32768 < 1" using sample_range [of w] by (rule conjunct2)
  next
    assume "odd (length data)"
    then show "decodeAudioData data ctx rate c = Inl RangeError" by (rule decodeAudioData_odd)
  next
    assume "length data mod (1 * 2) \<noteq> 0"
    then have "odd (length data)" by (simp add: odd_iff_mod_2_eq_one)
    then show "decodeAudioData data ctx rate 1 = Inl RangeError" by (rule decodeAudioData_odd)
  next
    assume h: "even (length data) \<and> (length data div 2 div c) mod 4294967296 = 0"
    show "decodeAudioData data ctx rate c = Inl NotSupportedError"
      by (rule decodeAudioData_empty) (use h in simp_all)
  qed
qed

theorem decodeAudioData_frames_witness:
  "even (length [0, 0x80, 0xFF, 0x7F :: byte]) \<and> (0::nat) < 1
   \<and> 1 \<le> maxChannelCount (standard_context 0)
   \<and> minSampleRate (standard_context 0) \<le> 24000 \<and> 24000 \<le> maxSampleRate (standard_context 0)
   \<and> 0 < length [0, 0x80, 0xFF, 0x7F :: byte] div 2 div 1
   \<and> length [0, 0x80, 0xFF, 0x7F :: byte] div 2 div 1 < 4294967296
   \<and> decodeAudioData [0, 0x80, 0xFF, 0x7F] (standard_context 0) 24000 1 =
       Inr \<lparr>numberOfChannels = 1, bufferLength = 2, sampleRate = 24000,
            channelData = [[Num (- 1), Num (32767 / 32768)]]\<rparr>
   \<and> odd (length [0, 0x80, 0xFF :: byte])
   \<and> length [0, 0x80, 0xFF :: byte] mod (1 * 2) \<noteq> 0
   \<and> decodeAudioData [0, 0x80, 0xFF] (standard_context 0) 24000 1 = Inl RangeError
   \<and> even (length [0, 0x80 :: byte])
   \<and> (length [0, 0x80 :: byte] div 2 div 2) mod 4294967296 = 0
   \<and> decodeAudioData [0, 0x80] (standard_context 0) 24000 2 = Inl NotSupportedError"
  using decodeAudioData_frames [of "[0, 0x80, 0xFF, 0x7F]" 1 "standard_context 0" 24000 0]
    decodeAudioData_frames [of "[0, 0x80, 0xFF]" 1 "standard_context 0" 24000 0]
    decodeAudioData_frames [of "[0, 0x80]" 2 "standard_context 0" 24000 0]
  by (simp add: standard_context_def le_int16_def upt_0_2)

section \<open>Properties of the capture callback\<close>

subsection \<open>The bytes of the samples\<close>

lemma int16_bytes_value:
  "unat (word_of_nat (unat (w :: int16) mod 256) :: byte)
   + 256 * unat (word_of_nat (unat w div 256) :: byte) = unat w"
proof -
  have "unat w < 65536" using unsigned_less [of w] by simp
  then have "unat w div 256 < 256" by (simp add: less_mult_imp_div_less)
  then show ?thesis by (simp add: unat_of_nat)
qed

lemma int16_bytes_roundtrip: "int16_elements (int16_bytes w @ rest) = w # int16_elements rest"
  using int16_bytes_value [of w] by (simp add: int16_bytes_def le_int16_def)

lemma int16_elements_Uint8Array: "int16_elements (Uint8Array_of_int16 ws) = ws"
  by (induction ws) (simp_all add: Uint8Array_of_int16_def int16_bytes_roundtrip)

lemma length_Uint8Array: "length (Uint8Array_of_int16 ws) = 2 * length ws"
  by (induction ws) (simp_all add: Uint8Array_of_int16_def int16_bytes_def)

lemma Int16Array_Uint8Array: "Int16Array_of_buffer (Uint8Array_of_int16 ws) = Inr ws"
  by (simp add: Int16Array_of_buffer_def length_Uint8Array int16_elements_Uint8Array)

lemma nth_Uint8Array:
  "i < length ws \<Longrightarrow>
   Uint8Array_of_int16 ws ! (2 * i) = word_of_nat (unat (ws ! i) mod 256)
   \<and> Uint8Array_of_int16 ws ! (2 * i + 1) = word_of_nat (unat (ws ! i) div 256)"
proof (induction ws arbitrary: i)
  case Nil
  then show ?case by simp
next
  case (Cons w ws)
  have unfold: "Uint8Array_of_int16 (w # ws) =
      word_of_nat (unat w mod 256) # word_of_nat (unat w div 256) # Uint8Array_of_int16 ws"
    by (simp add: Uint8Array_of_int16_def int16_bytes_def)
  show ?case
  proof (cases i)
    case 0
    then show ?thesis by (simp add: unfold)
  next
    case (Suc j)
    then have "j < length ws" using Cons.prems by simp
    from Cons.IH [OF this] show ?thesis by (simp add: unfold Suc)
  qed
qed

lemma uint_float_to_int16:
  "uint (float_to_int16 x) =
   (case x of
      Num v \<Rightarrow> (if 0 \<le> v * 32768 then \<lfloor>v * 32768\<rfloor> else \<lceil>v * 32768\<rceil>) mod 65536
    | _ \<Rightarrow> 0)"
  by (cases x)
     (simp_all add: float_to_int16_def times_32768_def ToInt16_def truncate_number_def
        uint_word_of_int)

lemma payload_bytes:
  assumes "i < length inputData"
  shows "int (unat (Uint8Array_of_int16 (map float_to_int16 inputData) ! (2 * i)))
         + 256 * int (unat (Uint8Array_of_int16 (map float_to_int16 inputData) ! (2 * i + 1))) =
         (case inputData ! i of
            Num v \<Rightarrow> (if 0 \<le> v * 32768 then \<lfloor>v * 32768\<rfloor> else \<lceil>v * 32768\<rceil>) mod 65536
          | _ \<Rightarrow> 0)"
proof -
  let ?w = "float_to_int16 (inputData ! i)"
  from assms have i: "i < length (map float_to_int16 inputData)" by simp
  from nth_Uint8Array [OF i] assms
  have "int (unat (Uint8Array_of_int16 (map float_to_int16 inputData) ! (2 * i)))
         + 256 * int (unat (Uint8Array_of_int16 (map float_to_int16 inputData) ! (2 * i + 1))) =
        int (unat (word_of_nat (unat ?w mod 256) :: byte)
             + 256 * unat (word_of_nat (unat ?w div 256) :: byte))"
    by simp
  also have "\<dots> = int (unat ?w)" by (simp only: int16_bytes_value)
  also have "\<dots> = uint ?w" by simp
  finally show ?thesis by (simp only: uint_float_to_int16)
qed

subsection \<open>The buffers of the processor\<close>

declare audioprocess_frames.simps [simp del]

lemma length_audioprocess_frames:
  "frame \<in> set (audioprocess_frames p input) \<Longrightarrow> length frame = bufferSize p"
proof (induction p input rule: audioprocess_frames.induct)
  case (1 p input)
  show ?case
  proof (cases "bufferSize p = 0 \<or> length input < bufferSize p")
    case True
    then show ?thesis using "1.prems" by (subst (asm) audioprocess_frames.simps) simp
  next
    case False
    then have "frame = take (bufferSize p) input
        \<or> frame \<in> set (audioprocess_frames p (drop (bufferSize p) input))"
      using "1.prems" by (subst (asm) audioprocess_frames.simps) simp
    then show ?thesis using False "1.IH" by auto
  qed
qed

lemma concat_audioprocess_frames:
  "0 < bufferSize p \<Longrightarrow>
   \<exists>rest. concat (audioprocess_frames p input) @ rest = input \<and> length rest < bufferSize p"
proof (induction p input rule: audioprocess_frames.induct)
  case (1 p input)
  show ?case
  proof (cases "length input < bufferSize p")
    case True
    then have "audioprocess_frames p input = []"
      by (subst audioprocess_frames.simps) simp
    then show ?thesis using True by simp
  next
    case False
    then have step: "audioprocess_frames p input =
        take (bufferSize p) input # audioprocess_frames p (drop (bufferSize p) input)"
      using "1.prems" by (subst audioprocess_frames.simps) simp
    from False "1.prems" "1.IH" obtain rest where
      rest: "concat (audioprocess_frames p (drop (bufferSize p) input)) @ rest =
             drop (bufferSize p) input" "length rest < bufferSize p"
      by auto
    have "concat (audioprocess_frames p input) @ rest =
          take (bufferSize p) input @ drop (bufferSize p) input"
      by (simp add: step rest(1))
    then show ?thesis using rest(2) by auto
  qed
qed

lemma audioprocess_frames_one:
  "length frame = bufferSize p \<Longrightarrow> 0 < bufferSize p \<Longrightarrow> length rest < bufferSize p \<Longrightarrow>
   audioprocess_frames p (frame @ rest) = [frame]"
  by (subst audioprocess_frames.simps, simp, subst audioprocess_frames.simps, simp)

subsection \<open>What is sent\<close>

lemma sent_then_send_Fulfilled:
  "sessionPromise s = Fulfilled \<Longrightarrow> sent (then_send m s) = sent s @ [m]"
  by (simp add: then_send_def)

lemma sessionPromise_then_send: "sessionPromise (then_send m s) = sessionPromise s"
  by (simp add: then_send_def split: promise_state.splits)

lemma sent_fold_onaudioprocess:
  "sessionPromise s = Fulfilled \<Longrightarrow>
   sent (fold onaudioprocess frames s) =
   sent s @ map (\<lambda>frame. RealtimeInput (capture_blob frame)) frames"
proof (induction frames arbitrary: s)
  case Nil
  show ?case by simp
next
  case (Cons frame frames)
  have p: "sessionPromise (onaudioprocess frame s) = Fulfilled"
    using Cons.prems by (simp add: onaudioprocess_def sessionPromise_then_send)
  have "sent (onaudioprocess frame s) = sent s @ [RealtimeInput (capture_blob frame)]"
    using Cons.prems by (simp add: onaudioprocess_def sent_then_send_Fulfilled)
  with Cons.IH [OF p] show ?case by simp
qed

lemma startSession_opened:
  "fst (startSession env s) = None \<Longrightarrow>
   sessionPromise (snd (startSession env s)) = Fulfilled
   \<and> scriptProcessors (snd (startSession env s)) =
       scriptProcessors s @ [createScriptProcessor 4096 1 1]"
  by (auto simp: startSession_def fulfil_def onopen_def Let_def split: if_splits)

text \<open>
  Claim C9: the processor that \<^verbatim>\<open>onopen\<close> connects, and so every session that
  has opened, is created with a buffer size of 4096 and one input channel; the
  buffers such a node delivers are consecutive pieces of the microphone signal
  of exactly 4096 mono samples each.  On an established session every delivered
  buffer is answered by one realtime input, in order, and nothing else is
  sent.  The blob of a buffer has the \<^verbatim>\<open>mimeType\<close> \<^verbatim>\<open>audio/pcm;rate=16000\<close>, and
  its \<^verbatim>\<open>data\<close> is the base64 text of two bytes per sample, low byte first,
  that hold the sample times 32768, truncated towards zero, as a 16-bit number
  (modulo \<open>2 ^ 16\<close>; 0 for a sample that is not finite); decoding the text gives
  these bytes back.
\<close>

theorem captured_frames_sent:
  "scriptProcessors (onopen s) = scriptProcessors s @ [createScriptProcessor 4096 1 1]
   \<and> (fst (startSession env s) = None \<longrightarrow>
        sessionPromise (snd (startSession env s)) = Fulfilled
        \<and> scriptProcessors (snd (startSession env s)) =
            scriptProcessors s @ [createScriptProcessor 4096 1 1])
   \<and> numberOfInputChannels (createScriptProcessor 4096 1 1) = 1
   \<and> (\<forall>frame\<in>set (audioprocess_frames (createScriptProcessor 4096 1 1) input).
        length frame = 4096)
   \<and> (\<exists>rest. concat (audioprocess_frames (createScriptProcessor 4096 1 1) input) @ rest = input
        \<and> length rest < 4096)
   \<and> (sessionPromise s = Fulfilled \<longrightarrow>
        sent (audioprocess (createScriptProcessor 4096 1 1) input s) =
          sent s @ map (\<lambda>frame. RealtimeInput (capture_blob frame))
                       (audioprocess_frames (createScriptProcessor 4096 1 1) input))
   \<and> mimeType (capture_blob inputData) = ''audio/pcm;rate=16000''
   \<and> (\<exists>bytes. blob_data (capture_blob inputData) = encode bytes
        \<and> decode (blob_data (capture_blob inputData)) = Inr bytes
        \<and> length bytes = 2 * length inputData
        \<and> (\<forall>i<length inputData.
              int (unat (bytes ! (2 * i))) + 256 * int (unat (bytes ! (2 * i + 1))) =
              (case inputData ! i of
                 Num v \<Rightarrow> (if 0 \<le> v * 32768 then \<lfloor>v * 32768\<rfloor> else \<lceil>v * 32768\<rceil>) mod 65536
               | _ \<Rightarrow> 0)))"
proof -
  let ?p = "createScriptProcessor 4096 1 1"
  let ?bytes = "Uint8Array_of_int16 (map float_to_int16 inputData)"
  have size: "bufferSize ?p = 4096" by (simp add: createScriptProcessor_def)
  have 1: "scriptProcessors (onopen s) = scriptProcessors s @ [?p]"
    by (simp add: onopen_def)
  have 2: "fst (startSession env s) = None \<longrightarrow>
        sessionPromise (snd (startSession env s)) = Fulfilled
        \<and> scriptProcessors (snd (startSession env s)) = scriptProcessors s @ [?p]"
    using startSession_opened [of env s] by blast
  have 3: "numberOfInputChannels ?p = 1" by (simp add: createScriptProcessor_def)
  have 4: "\<forall>frame\<in>set (audioprocess_frames ?p input). length frame = 4096"
  proof
    fix frame assume "frame \<in> set (audioprocess_frames ?p input)"
    then have "length frame = bufferSize ?p" by (rule length_audioprocess_frames)
    then show "length frame = 4096" by (simp only: size)
  qed
  have 5: "\<exists>rest. concat (audioprocess_frames ?p input) @ rest = input \<and> length rest < 4096"
  proof -
    have "0 < bufferSize ?p" by (simp add: createScriptProcessor_def)
    from concat_audioprocess_frames [OF this, of input] show ?thesis by (simp only: size)
  qed
  have 6: "sessionPromise s = Fulfilled \<longrightarrow>
        sent (audioprocess ?p input s) =
          sent s @ map (\<lambda>frame. RealtimeInput (capture_blob frame)) (audioprocess_frames ?p input)"
    by (simp add: audioprocess_def sent_fold_onaudioprocess)
  have 7: "mimeType (capture_blob inputData) = ''audio/pcm;rate=16000''"
    by (simp add: capture_blob_def)
  have "blob_data (capture_blob inputData) = encode ?bytes
        \<and> decode (blob_data (capture_blob inputData)) = Inr ?bytes
        \<and> length ?bytes = 2 * length inputData
        \<and> (\<forall>i<length inputData.
              int (unat (?bytes ! (2 * i))) + 256 * int (unat (?bytes ! (2 * i + 1))) =
              (case inputData ! i of
                 Num v \<Rightarrow> (if 0 \<le> v * 32768 then \<lfloor>v * 32768\<rfloor> else \<lceil>v * 32768\<rceil>) mod 65536
               | _ \<Rightarrow> 0))"
    using payload_bytes [of _ inputData]
    by (simp add: capture_blob_def decode_encode length_Uint8Array)
  then have 8: "\<exists>bytes. blob_data (capture_blob inputData) = encode bytes
        \<and> decode (blob_data (capture_blob inputData)) = Inr bytes
        \<and> length bytes = 2 * length inputData
        \<and> (\<forall>i<length inputData.
              int (unat (bytes ! (2 * i))) + 256 * int (unat (bytes ! (2 * i + 1))) =
              (case inputData ! i of
                 Num v \<Rightarrow> (if 0 \<le> v * 32768 then \<lfloor>v * 32768\<rfloor> else \<lceil>v * 32768\<rceil>) mod 65536
               | _ \<Rightarrow> 0))"
    by (rule exI [of _ ?bytes])
  from 1 2 3 4 5 6 7 8 show ?thesis by (intro conjI)
qed

theorem captured_frames_sent_witness:
  "fst (startSession all_granted initial) = None
   \<and> sessionPromise (snd (startSession all_granted initial)) = Fulfilled
   \<and> scriptProcessors (snd (startSession all_granted initial)) =
       [createScriptProcessor 4096 1 1]
   \<and> audioprocess_frames (createScriptProcessor 4096 1 1)
         (replicate 4096 (Num (1 / 2)) @ [Num 0]) = [replicate 4096 (Num (1 / 2))]
   \<and> length (replicate 4096 (Num (1 / 2))) = 4096
   \<and> sent (audioprocess (createScriptProcessor 4096 1 1)
         (replicate 4096 (Num (1 / 2)) @ [Num 0]) (snd (startSession all_granted initial))) =
       [RealtimeInput (capture_blob (replicate 4096 (Num (1 / 2))))]
   \<and> (0::nat) < length [Num (1 / 2), Num 1]
   \<and> mimeType (capture_blob [Num (1 / 2), Num 1]) = ''audio/pcm;rate=16000''
   \<and> blob_data (capture_blob [Num (1 / 2), Num 1]) = ''AEAAgA==''
   \<and> decode (blob_data (capture_blob [Num (1 / 2), Num 1])) = Inr [0, 0x40, 0, 0x80]"
proof -
  let ?p = "createScriptProcessor 4096 1 1"
  let ?frame = "replicate 4096 (Num (1 / 2))"
  let ?s = "snd (startSession all_granted initial)"
  note t = captured_frames_sent [where s = ?s and input = "?frame @ [Num 0]"
      and inputData = "[Num (1 / 2), Num 1]"]
  note t0 = captured_frames_sent [where s = initial and env = all_granted]
  have ok: "fst (startSession all_granted initial) = None"
    by (simp add: startSession_def all_granted_def initial_def Let_def)
  have i: "scriptProcessors initial = []" "sent initial = []" by (simp_all add: initial_def)
  from t0 ok have p: "sessionPromise ?s = Fulfilled"
    and sp: "scriptProcessors ?s = scriptProcessors initial @ [?p]" by blast+
  have e: "sent ?s = []"
    by (simp add: startSession_def all_granted_def initial_def fulfil_def onopen_def Let_def)
  have f: "audioprocess_frames ?p (?frame @ [Num 0]) = [?frame]"
    by (rule audioprocess_frames_one) (simp_all add: createScriptProcessor_def)
  then have m: "?frame \<in> set (audioprocess_frames ?p (?frame @ [Num 0]))" by simp
  from t m have l: "length ?frame = 4096" by blast
  from t p have "sent (audioprocess ?p (?frame @ [Num 0]) ?s) =
      sent ?s @ map (\<lambda>frame. RealtimeInput (capture_blob frame))
                    (audioprocess_frames ?p (?frame @ [Num 0]))"
    by blast
  then have s: "sent (audioprocess ?p (?frame @ [Num 0]) ?s) = [RealtimeInput (capture_blob ?frame)]"
    by (simp only: f e append_Nil list.map)
  from t have mt: "mimeType (capture_blob [Num (1 / 2), Num 1]) = ''audio/pcm;rate=16000''"
    by blast
  have b: "Uint8Array_of_int16 (map float_to_int16 [Num (1 / 2), Num 1]) = [0, 0x40, 0, 0x80]"
    by (simp add: Uint8Array_of_int16_def int16_bytes_def float_to_int16_Num truncate_number_def)
  have en: "encode [0, 0x40, 0, 0x80] = ''AEAAgA==''" by code_simp
  have bd: "blob_data (capture_blob [Num (1 / 2), Num 1]) = ''AEAAgA==''"
    by (simp only: capture_blob_def b en media_blob.simps)
  have de: "decode (blob_data (capture_blob [Num (1 / 2), Num 1])) = Inr [0, 0x40, 0, 0x80]"
    by (simp only: bd en [symmetric] decode_encode)
  have n: "(0::nat) < length [Num (1 / 2), Num 1]" by simp
  from sp have sp': "scriptProcessors ?s = [?p]" by (simp only: i append_Nil)
  from ok p sp' f l s n mt bd de show ?thesis by (intro conjI)
qed

section \<open>Properties of the playback scheduling\<close>

lemma duration_nonneg: "0 \<le> duration b"
  by (simp add: duration_def)

lemma sources_schedule:
  "sources (schedule ctx buffer s) =
   sources s @ [\<lparr>node_id = nodeCount s, node_buffer = buffer,
                 start_at = max (nextStartTime s) (currentTime ctx)\<rparr>]"
  by (simp add: schedule_def start_source_def advance_to_clock_def)

lemma nextStartTime_schedule:
  "nextStartTime (schedule ctx buffer s) =
   max (nextStartTime s) (currentTime ctx) + duration buffer"
  by (simp add: schedule_def start_source_def advance_to_clock_def)

lemma nextStartTime_schedule_mono: "nextStartTime s \<le> nextStartTime (schedule ctx buffer s)"
  using duration_nonneg [of buffer] by (simp add: nextStartTime_schedule max_def)

lemma nextStartTime_schedule_all_mono: "nextStartTime s \<le> nextStartTime (schedule_all evs s)"
proof (induction evs arbitrary: s)
  case Nil
  show ?case by simp
next
  case (Cons ev evs)
  obtain ctx buffer where ev: "ev = (ctx, buffer)" by (cases ev)
  have "nextStartTime s \<le> nextStartTime (schedule ctx buffer s)"
    by (rule nextStartTime_schedule_mono)
  also have "\<dots> \<le> nextStartTime (schedule_all evs (schedule ctx buffer s))"
    by (rule Cons.IH)
  finally show ?case by (simp add: ev)
qed

lemma gapless_from_nth:
  "gapless_from t ns \<Longrightarrow> Suc i < length ns \<Longrightarrow>
   start_at (ns ! Suc i) = start_at (ns ! i) + duration (node_buffer (ns ! i))"
proof (induction ns arbitrary: t i)
  case Nil
  then show ?case by simp
next
  case (Cons n ns)
  show ?case
  proof (cases i)
    case 0
    then show ?thesis using Cons.prems by (cases ns) simp_all
  next
    case (Suc j)
    then show ?thesis using Cons.prems Cons.IH [of "t + duration (node_buffer n)" j] by simp
  qed
qed

lemma schedule_all_gapless:
  "clock_behind_cursor evs s \<Longrightarrow>
   \<exists>ns. sources (schedule_all evs s) = sources s @ ns \<and> length ns = length evs
        \<and> gapless_from (nextStartTime s) ns"
proof (induction evs arbitrary: s)
  case Nil
  show ?case by simp
next
  case (Cons ev evs)
  obtain ctx buffer where ev: "ev = (ctx, buffer)" by (cases ev)
  let ?s1 = "schedule ctx buffer s"
  let ?n = "\<lparr>node_id = nodeCount s, node_buffer = buffer, start_at = nextStartTime s\<rparr>"
  from Cons.prems have clock: "currentTime ctx \<le> nextStartTime s"
    and rest: "clock_behind_cursor evs ?s1" by (simp_all add: ev)
  from clock have src: "sources ?s1 = sources s @ [?n]"
    and cur: "nextStartTime ?s1 = nextStartTime s + duration buffer"
    by (simp_all add: sources_schedule nextStartTime_schedule max_def)
  from Cons.IH [OF rest] obtain ns where
    ns: "sources (schedule_all evs ?s1) = sources ?s1 @ ns" "length ns = length evs"
      "gapless_from (nextStartTime ?s1) ns" by blast
  have "sources (schedule_all (ev # evs) s) = sources s @ (?n # ns)"
    using ns(1) by (simp add: ev src)
  moreover have "length (?n # ns) = length (ev # evs)" using ns(2) by simp
  moreover have "gapless_from (nextStartTime s) (?n # ns)" using ns(3) by (simp add: cur)
  ultimately show ?case by blast
qed

lemma audio_fragment_schedules:
  "decode base64Audio = Inr bytes \<Longrightarrow> decodeAudioData bytes ctx 24000 1 = Inr buffer \<Longrightarrow>
   audio_fragment ctx base64Audio s = (None, schedule ctx buffer s)"
  by (simp add: audio_fragment_def schedule_def)

lemma nextStartTime_audio_fragment_mono:
  "nextStartTime s \<le> nextStartTime (snd (audio_fragment ctx base64Audio s))"
proof (cases "decode base64Audio")
  case (Inl e)
  then show ?thesis by (simp add: audio_fragment_def advance_to_clock_def)
next
  case (Inr bytes)
  show ?thesis
  proof (cases "decodeAudioData bytes ctx 24000 1")
    case (Inl e)
    then show ?thesis using Inr by (simp add: audio_fragment_def advance_to_clock_def)
  next
    case (Inr buffer)
    then show ?thesis
      using \<open>decode base64Audio = Inr bytes\<close> nextStartTime_schedule_mono [of s ctx buffer]
      by (simp add: audio_fragment_schedules)
  qed
qed

lemma onmessage_audio_message:
  "base64Audio \<noteq> [] \<Longrightarrow> decode base64Audio = Inr bytes \<Longrightarrow>
   decodeAudioData bytes ctx 24000 1 = Inr buffer \<Longrightarrow>
   onmessage onCommand ctx (audio_message base64Audio) s = (None, schedule ctx buffer s)"
  by (simp add: onmessage_def and_then_def audio_message_def tool_call_def transcription_def
        model_audio_def base64Audio_of_def interruption_def turn_completion_def
        audio_fragment_schedules)

text \<open>
  Claim C1: a decoded fragment is started at \<open>max(cursor, device clock)\<close> and
  the cursor then is that start time plus the duration of its buffer; a
  fragment that decodes is scheduled in exactly this way by the message handler.
  Hence, over any sequence of scheduled buffers during which the clock is never
  ahead of the cursor, every segment starts where the one before it ends; and
  neither one scheduling step, nor a sequence of them, nor the handling of a
  fragment that fails to decode moves the cursor backward.
\<close>

theorem schedule_gapless:
  "sources (schedule ctx buffer s) =
     sources s @ [\<lparr>node_id = nodeCount s, node_buffer = buffer,
                   start_at = max (nextStartTime s) (currentTime ctx)\<rparr>]
   \<and> nextStartTime (schedule ctx buffer s) =
       max (nextStartTime s) (currentTime ctx) + duration buffer
   \<and> (base64Audio \<noteq> [] \<and> decode base64Audio = Inr bytes
        \<and> decodeAudioData bytes ctx 24000 1 = Inr buffer
        \<longrightarrow> audio_fragment ctx base64Audio s = (None, schedule ctx buffer s)
            \<and> onmessage onCommand ctx (audio_message base64Audio) s =
                (None, schedule ctx buffer s))
   \<and> (clock_behind_cursor evs s \<and> Suc i < length evs
        \<longrightarrow> length (sources (schedule_all evs s)) = length (sources s) + length evs
            \<and> start_at (sources (schedule_all evs s) ! (length (sources s) + Suc i)) =
                start_at (sources (schedule_all evs s) ! (length (sources s) + i))
                + duration (node_buffer (sources (schedule_all evs s) ! (length (sources s) + i))))
   \<and> nextStartTime s \<le> nextStartTime (schedule ctx buffer s)
   \<and> nextStartTime s \<le> nextStartTime (schedule_all evs s)
   \<and> nextStartTime s \<le> nextStartTime (snd (audio_fragment ctx base64Audio s))"
proof -
  have seq: "length (sources (schedule_all evs s)) = length (sources s) + length evs
            \<and> start_at (sources (schedule_all evs s) ! (length (sources s) + Suc i)) =
                start_at (sources (schedule_all evs s) ! (length (sources s) + i))
                + duration (node_buffer (sources (schedule_all evs s) ! (length (sources s) + i)))"
    if h: "clock_behind_cursor evs s \<and> Suc i < length evs"
  proof -
    from h schedule_all_gapless [of evs s] obtain ns where
      ns: "sources (schedule_all evs s) = sources s @ ns" "length ns = length evs"
        "gapless_from (nextStartTime s) ns" by blast
    from h ns(2) have i: "Suc i < length ns" by simp
    from gapless_from_nth [OF ns(3) i] ns(2) show ?thesis
      by (simp add: ns(1) nth_append)
  qed
  show ?thesis
    using seq audio_fragment_schedules [of base64Audio bytes ctx buffer s]
      onmessage_audio_message [of base64Audio bytes ctx buffer onCommand s]
    by (simp only: sources_schedule nextStartTime_schedule nextStartTime_schedule_all_mono
          nextStartTime_audio_fragment_mono nextStartTime_schedule_mono [unfolded nextStartTime_schedule]
          simp_thms) blast
qed

theorem schedule_gapless_witness:
  "clock_behind_cursor [(standard_context 0, silence 24000), (standard_context (3 / 10), silence 12000)]
      initial
   \<and> Suc 0 < length [(standard_context 0, silence 24000), (standard_context (3 / 10), silence 12000)]
   \<and> start_at (sources (schedule_all
        [(standard_context 0, silence 24000), (standard_context (3 / 10), silence 12000)] initial)
          ! (length (sources initial) + Suc 0)) =
      start_at (sources (schedule_all
        [(standard_context 0, silence 24000), (standard_context (3 / 10), silence 12000)] initial)
          ! (length (sources initial) + 0))
      + duration (node_buffer (sources (schedule_all
        [(standard_context 0, silence 24000), (standard_context (3 / 10), silence 12000)] initial)
          ! (length (sources initial) + 0)))
   \<and> map start_at (sources (schedule_all
        [(standard_context 0, silence 24000), (standard_context (3 / 10), silence 12000)] initial)) =
      [0, 1]
   \<and> nextStartTime (schedule_all
        [(standard_context 0, silence 24000), (standard_context (3 / 10), silence 12000)] initial) =
      3 / 2
   \<and> ''AAA='' \<noteq> [] \<and> decode ''AAA='' = Inr [0, 0]
   \<and> decodeAudioData [0, 0] (standard_context 0) 24000 1 = Inr (silence 1)
   \<and> onmessage app_onCommand (standard_context 0) (audio_message ''AAA='') initial =
       (None, schedule (standard_context 0) (silence 1) initial)"
proof -
  let ?evs = "[(standard_context 0, silence 24000), (standard_context (3 / 10), silence 12000)]"
  have h: "clock_behind_cursor ?evs initial \<and> Suc 0 < length ?evs"
    by (simp add: initial_def standard_context_def silence_def duration_def
          nextStartTime_schedule)
  have v: "map start_at (sources (schedule_all ?evs initial)) = [0, 1]
      \<and> nextStartTime (schedule_all ?evs initial) = 3 / 2"
    by (simp add: initial_def standard_context_def silence_def duration_def
          nextStartTime_schedule sources_schedule)
  have d: "''AAA='' \<noteq> [] \<and> decode ''AAA='' = Inr [0, 0]
      \<and> decodeAudioData [0, 0] (standard_context 0) 24000 1 = Inr (silence 1)"
    by (simp add: decode_def atob_def strip_padding_def ascii_whitespace_def b64_value_def
          decodeAudioData_def Int16Array_of_buffer_def createBuffer_def standard_context_def
          fill_channel_def typed_array_set_def normalized_sample_def le_int16_def silence_def)
  from schedule_gapless [where evs = ?evs and s = initial and i = 0] h v
  have g: "start_at (sources (schedule_all ?evs initial) ! (length (sources initial) + Suc 0)) =
      start_at (sources (schedule_all ?evs initial) ! (length (sources initial) + 0))
      + duration (node_buffer (sources (schedule_all ?evs initial) ! (length (sources initial) + 0)))"
    by blast
  from schedule_gapless [where base64Audio = "''AAA=''" and bytes = "[0, 0]"
      and ctx = "standard_context 0" and buffer = "silence 1" and s = initial
      and onCommand = app_onCommand] d
  have m: "onmessage app_onCommand (standard_context 0) (audio_message ''AAA='') initial =
       (None, schedule (standard_context 0) (silence 1) initial)"
    by blast
  from h g v d m show ?thesis by blast
qed

section \<open>Properties of the interruption\<close>

lemma onmessage_interrupted_message:
  "onmessage onCommand ctx interrupted_message s = (None, interrupt s)"
  by (simp add: onmessage_def interrupted_message_def and_then_def tool_call_def
        transcription_def model_audio_def base64Audio_of_def interruption_def
        turn_completion_def)

lemma sources_turn_completion: "sources (turn_completion message s) = sources s"
  by (simp add: turn_completion_def split: option.splits)

lemma nextStartTime_turn_completion:
  "nextStartTime (turn_completion message s) = nextStartTime s"
  by (simp add: turn_completion_def split: option.splits)

lemma onmessage_interrupted:
  assumes ok: "fst (onmessage onCommand ctx message s) = None"
    and sc: "serverContent message = Some sc" and int: "interrupted sc"
  shows "sources (snd (onmessage onCommand ctx message s)) = []
         \<and> nextStartTime (snd (onmessage onCommand ctx message s)) = 0"
proof -
  obtain e1 s1 where r1: "tool_call onCommand message (transcription message s) = (e1, s1)"
    by (cases "tool_call onCommand message (transcription message s)")
  obtain e2 s2 where r2: "model_audio ctx message s1 = (e2, s2)"
    by (cases "model_audio ctx message s1")
  from ok have e1: "e1 = None"
    by (cases e1) (simp_all add: onmessage_def and_then_def r1)
  from ok e1 have e2: "e2 = None"
    by (cases e2) (simp_all add: onmessage_def and_then_def r1 r2)
  have "snd (onmessage onCommand ctx message s) = turn_completion message (interrupt s2)"
    using sc int by (simp add: onmessage_def and_then_def r1 r2 e1 e2 interruption_def)
  then show ?thesis
    by (simp add: sources_turn_completion nextStartTime_turn_completion interrupt_def)
qed

text \<open>
  Claim C2: handling an interruption, in any state, calls \<^verbatim>\<open>stop\<close> on every
  active source node, leaves \<^verbatim>\<open>sources\<close> empty and sets the cursor to 0; with
  no active node it only resets the cursor; the handler does exactly this for a
  message that carries the interruption flag alone, and every message with the
  flag whose handling does not throw leaves no active node and the cursor 0;
  the next buffer is scheduled from the cursor 0, that is at
  \<open>max(0, device clock)\<close>.
\<close>

theorem interrupt_stops_all:
  "sources (interrupt s) = []
   \<and> nextStartTime (interrupt s) = 0
   \<and> stopped (interrupt s) = stopped s @ map node_id (sources s)
   \<and> (sources s = [] \<longrightarrow> interrupt s = s\<lparr>nextStartTime := 0\<rparr>)
   \<and> onmessage onCommand ctx interrupted_message s = (None, interrupt s)
   \<and> (fst (onmessage onCommand ctx message s) = None \<and> serverContent message = Some sc
        \<and> interrupted sc
        \<longrightarrow> sources (snd (onmessage onCommand ctx message s)) = []
            \<and> nextStartTime (snd (onmessage onCommand ctx message s)) = 0)
   \<and> sources (schedule ctx buffer (interrupt s)) =
       [\<lparr>node_id = nodeCount s, node_buffer = buffer, start_at = max 0 (currentTime ctx)\<rparr>]
   \<and> nextStartTime (schedule ctx buffer (interrupt s)) = max 0 (currentTime ctx) + duration buffer"
  using onmessage_interrupted [of onCommand ctx message s sc]
  by (simp add: onmessage_interrupted_message sources_schedule nextStartTime_schedule)
     (simp add: interrupt_def)

lemma opened_session:
  "snd (startSession all_granted initial) =
     initial\<lparr>isActive := True, sessionRef := True, audioContexts := True,
             sessionPromise := Fulfilled, connectionOpen := True,
             liveMicStreams := 1,
             scriptProcessors := [createScriptProcessor 4096 1 1]\<rparr>"
  by (simp add: startSession_def all_granted_def initial_def fulfil_def onopen_def Let_def)

lemma two_segments_eq:
  "two_segments =
     initial\<lparr>isActive := True, sessionRef := True, audioContexts := True,
             nextStartTime := 3 / 2,
             sources := [\<lparr>node_id = 0, node_buffer = silence 24000, start_at = 0\<rparr>,
                         \<lparr>node_id = 1, node_buffer = silence 12000, start_at = 1\<rparr>],
             sessionPromise := Fulfilled, connectionOpen := True,
             liveMicStreams := 1,
             scriptProcessors := [createScriptProcessor 4096 1 1], nodeCount := 2\<rparr>"
proof -
  have d: "duration (silence 24000) = 1" "duration (silence 12000) = 1 / 2"
    by (simp_all add: duration_def silence_def)
  show ?thesis
    unfolding two_segments_def opened_session
    by (simp add: schedule_def start_source_def advance_to_clock_def standard_context_def d
          initial_def)
qed

theorem interrupt_stops_all_witness:
  "sources initial = [] \<and> interrupt initial = initial\<lparr>nextStartTime := 0\<rparr>
   \<and> map node_id (sources two_segments) = [0, 1]
   \<and> sources (interrupt two_segments) = []
   \<and> nextStartTime (interrupt two_segments) = 0
   \<and> stopped (interrupt two_segments) = [0, 1]
   \<and> sources (schedule (standard_context 0) (silence 12000) (interrupt two_segments)) =
       [\<lparr>node_id = 2, node_buffer = silence 12000, start_at = 0\<rparr>]
   \<and> fst (onmessage app_onCommand (standard_context 0) interrupted_message two_segments) = None
   \<and> serverContent interrupted_message =
       Some \<lparr>inputTranscription = None, modelTurn = None, interrupted = True,
             turnComplete = False\<rparr>
   \<and> interrupted \<lparr>inputTranscription = None, modelTurn = None, interrupted = True,
             turnComplete = False\<rparr>
   \<and> sources (snd (onmessage app_onCommand (standard_context 0) interrupted_message
                      two_segments)) = []
   \<and> nextStartTime (snd (onmessage app_onCommand (standard_context 0) interrupted_message
                      two_segments)) = 0"
proof -
  let ?sc = "\<lparr>inputTranscription = None, modelTurn = None, interrupted = True,
             turnComplete = False\<rparr>"
  note t1 = interrupt_stops_all [where s = initial and onCommand = app_onCommand
      and ctx = "standard_context 0" and buffer = "silence 12000"]
  note t2 = interrupt_stops_all [where s = two_segments and onCommand = app_onCommand
      and ctx = "standard_context 0" and buffer = "silence 12000"
      and message = interrupted_message and sc = ?sc]
  from t2 have f: "fst (onmessage app_onCommand (standard_context 0) interrupted_message
      two_segments) = None"
    by simp
  have m: "serverContent interrupted_message = Some ?sc" "interrupted ?sc"
    by (simp_all add: interrupted_message_def)
  from t2 f m have o: "sources (snd (onmessage app_onCommand (standard_context 0)
      interrupted_message two_segments)) = []"
    "nextStartTime (snd (onmessage app_onCommand (standard_context 0)
      interrupted_message two_segments)) = 0"
    by blast+
  have e: "sources initial = []" by (simp add: initial_def)
  have v: "map node_id (sources two_segments) = [0, 1]" "stopped two_segments = []"
    "nodeCount two_segments = 2" "currentTime (standard_context 0) = 0"
    by (simp_all add: two_segments_eq initial_def standard_context_def)
  from t1 e have 1: "interrupt initial = initial\<lparr>nextStartTime := 0\<rparr>" by blast
  from t2 have 2: "sources (interrupt two_segments) = []"
    and 3: "nextStartTime (interrupt two_segments) = 0"
    and 4: "stopped (interrupt two_segments) = stopped two_segments @ map node_id (sources two_segments)"
    and 5: "sources (schedule (standard_context 0) (silence 12000) (interrupt two_segments)) =
       [\<lparr>node_id = nodeCount two_segments, node_buffer = silence 12000,
         start_at = max 0 (currentTime (standard_context 0))\<rparr>]"
    by blast+
  from 4 have r4: "stopped (interrupt two_segments) = [0, 1]" by (simp only: v append_Nil)
  from 5 have r5: "sources (schedule (standard_context 0) (silence 12000) (interrupt two_segments)) =
       [\<lparr>node_id = 2, node_buffer = silence 12000, start_at = 0\<rparr>]"
    by (simp only: v max.idem)
  from e 1 v(1) 2 3 r4 r5 f m o show ?thesis by (intro conjI)
qed

section \<open>Properties of the function calls\<close>

lemma function_calls_acknowledged:
  "sessionPromise s = Fulfilled \<Longrightarrow>
   \<forall>fc\<in>set fcs. onCommand (fc_name fc) (fc_args fc) = None \<Longrightarrow>
   fst (function_calls onCommand fcs s) = None
   \<and> sent (snd (function_calls onCommand fcs s)) =
       sent s @ map (\<lambda>fc. ToolResponse (fc_id fc) (fc_name fc) ''ok'') fcs"
proof (induction fcs arbitrary: s)
  case Nil
  show ?case by simp
next
  case (Cons fc fcs)
  let ?s1 = "s\<lparr>dispatched := dispatched s @ [(fc_name fc, fc_args fc)]\<rparr>"
  let ?s2 = "then_send (ToolResponse (fc_id fc) (fc_name fc) ''ok'') ?s1"
  have p1: "sessionPromise ?s1 = Fulfilled" using Cons.prems(1) by simp
  then have p2: "sessionPromise ?s2 = Fulfilled" by (simp only: sessionPromise_then_send)
  have s2: "sent ?s2 = sent s @ [ToolResponse (fc_id fc) (fc_name fc) ''ok'']"
    using p1 by (simp add: then_send_def)
  have ok: "onCommand (fc_name fc) (fc_args fc) = None"
    and rest: "\<forall>fc\<in>set fcs. onCommand (fc_name fc) (fc_args fc) = None"
    using Cons.prems(2) by simp_all
  have step: "function_calls onCommand (fc # fcs) s = function_calls onCommand fcs ?s2"
    by (simp add: ok Let_def)
  from Cons.IH [OF p2 rest] show ?case by (simp only: step s2) simp
qed

lemma sent_transcription: "sent (transcription message s) = sent s"
  by (simp add: transcription_def split: option.splits)

lemma sessionPromise_transcription: "sessionPromise (transcription message s) = sessionPromise s"
  by (simp add: transcription_def split: option.splits)

lemma sent_audio_fragment: "sent (snd (audio_fragment ctx base64Audio s)) = sent s"
  by (simp add: audio_fragment_def advance_to_clock_def start_source_def Let_def
        split: sum.splits)

lemma sent_model_audio: "sent (snd (model_audio ctx message s)) = sent s"
  by (simp add: model_audio_def sent_audio_fragment split: sum.splits option.splits)

lemma sent_interruption: "sent (interruption message s) = sent s"
  by (simp add: interruption_def interrupt_def split: option.splits)

lemma sent_turn_completion: "sent (turn_completion message s) = sent s"
  by (simp add: turn_completion_def split: option.splits)

lemma sent_onmessage:
  "sent (snd (onmessage onCommand ctx message s)) =
   sent (snd (tool_call onCommand message (transcription message s)))"
proof -
  obtain e1 s1 where r1: "tool_call onCommand message (transcription message s) = (e1, s1)"
    by (cases "tool_call onCommand message (transcription message s)")
  obtain e2 s2 where r2: "model_audio ctx message s1 = (e2, s2)"
    by (cases "model_audio ctx message s1")
  have s2: "sent s2 = sent s1" using sent_model_audio [of ctx message s1] by (simp add: r2)
  show ?thesis
    by (cases e1; cases e2)
       (simp_all add: onmessage_def and_then_def r1 r2 s2 sent_interruption sent_turn_completion)
qed

text \<open>
  Claim C3 says that every function call gets its acknowledgement whatever the
  dispatch does.  The handler calls \<^verbatim>\<open>onCommand\<close> first and has no
  \<^verbatim>\<open>try\<close> around it: when the callback throws, the handler stops.  The
  application's callback reads \<^verbatim>\<open>args.section\<close> for \<^verbatim>\<open>navigateTo\<close>, which
  throws when the call carries no \<^verbatim>\<open>args\<close>; then neither this call nor the
  one after it in the same message is acknowledged.
\<close>

theorem tool_call_dispatch_throws_counterexample:
  "sessionPromise (snd (startSession all_granted initial)) = Fulfilled
   \<and> isActive (snd (startSession all_granted initial))
   \<and> fst (onmessage app_onCommand (standard_context 0)
        (tool_call_message
           [\<lparr>fc_id = Some ''call-1'', fc_name = Some ''navigateTo'', fc_args = None\<rparr>,
            \<lparr>fc_id = Some ''call-2'', fc_name = Some ''toggleTheme'', fc_args = None\<rparr>])
        (snd (startSession all_granted initial))) = Some TypeError
   \<and> sent (snd (onmessage app_onCommand (standard_context 0)
        (tool_call_message
           [\<lparr>fc_id = Some ''call-1'', fc_name = Some ''navigateTo'', fc_args = None\<rparr>,
            \<lparr>fc_id = Some ''call-2'', fc_name = Some ''toggleTheme'', fc_args = None\<rparr>])
        (snd (startSession all_granted initial)))) = []"
  unfolding opened_session
  by (simp add: initial_def onmessage_def and_then_def tool_call_def
        tool_call_message_def transcription_def app_onCommand_def)

lemma dispatched_transcription: "dispatched (transcription message s) = dispatched s"
  by (simp add: transcription_def split: option.splits)

lemma function_calls_throws:
  "sessionPromise s = Fulfilled \<Longrightarrow>
   \<forall>fc\<in>set pre. onCommand (fc_name fc) (fc_args fc) = None \<Longrightarrow>
   onCommand (fc_name bad) (fc_args bad) = Some e \<Longrightarrow>
   fst (function_calls onCommand (pre @ bad # post) s) = Some e
   \<and> sent (snd (function_calls onCommand (pre @ bad # post) s)) =
       sent s @ map (\<lambda>fc. ToolResponse (fc_id fc) (fc_name fc) ''ok'') pre
   \<and> dispatched (snd (function_calls onCommand (pre @ bad # post) s)) =
       dispatched s @ map (\<lambda>fc. (fc_name fc, fc_args fc)) (pre @ [bad])"
proof (induction pre arbitrary: s)
  case Nil
  then show ?case by (simp add: Let_def)
next
  case (Cons fc pre)
  let ?s1 = "s\<lparr>dispatched := dispatched s @ [(fc_name fc, fc_args fc)]\<rparr>"
  let ?s2 = "then_send (ToolResponse (fc_id fc) (fc_name fc) ''ok'') ?s1"
  have p1: "sessionPromise ?s1 = Fulfilled" using Cons.prems(1) by simp
  then have p2: "sessionPromise ?s2 = Fulfilled" by (simp only: sessionPromise_then_send)
  have s2: "sent ?s2 = sent s @ [ToolResponse (fc_id fc) (fc_name fc) ''ok'']"
    using p1 by (simp add: then_send_def)
  have d2: "dispatched ?s2 = dispatched s @ [(fc_name fc, fc_args fc)]"
    using p1 by (simp add: then_send_def)
  have ok: "onCommand (fc_name fc) (fc_args fc) = None"
    and rest: "\<forall>fc\<in>set pre. onCommand (fc_name fc) (fc_args fc) = None"
    using Cons.prems(2) by simp_all
  have step: "function_calls onCommand ((fc # pre) @ bad # post) s =
      function_calls onCommand (pre @ bad # post) ?s2"
    by (simp add: ok Let_def)
  from Cons.IH [OF p2 rest Cons.prems(3)] show ?case by (simp only: step s2 d2) simp
qed

lemma onmessage_tool_call_throws:
  "fst (tool_call onCommand message (transcription message s)) = Some e \<Longrightarrow>
   onmessage onCommand ctx message s = tool_call onCommand message (transcription message s)"
  by (cases "tool_call onCommand message (transcription message s)")
     (simp add: onmessage_def and_then_def)

text \<open>
  Claim C3, amended: on an established session, a message whose function
  calls are all dispatched without an exception makes the handler send, in the
  order of the calls, exactly one response per call, with the call's \<^verbatim>\<open>id\<close>
  and \<^verbatim>\<open>name\<close> and the result \<^verbatim>\<open>ok\<close>, and nothing else.  When the dispatch
  of one call throws, the calls before it in the message have been dispatched
  and acknowledged, in order; the throwing call has been dispatched but is not
  acknowledged, the calls after it are neither dispatched nor acknowledged, and
  the handler ends with that exception.  The application's callback returns
  for every command name other than \<^verbatim>\<open>navigateTo\<close>, so an unrecognized name is
  acknowledged, and for every call that carries arguments; it throws, a
  \<^verbatim>\<open>TypeError\<close>, exactly for \<^verbatim>\<open>navigateTo\<close> without arguments.
\<close>

theorem tool_calls_acknowledged:
  "(sessionPromise s = Fulfilled \<and> toolCall message = Some (Some fcs)
      \<and> (\<forall>fc\<in>set fcs. onCommand (fc_name fc) (fc_args fc) = None)
    \<longrightarrow> sent (snd (onmessage onCommand ctx message s)) =
          sent s @ map (\<lambda>fc. ToolResponse (fc_id fc) (fc_name fc) ''ok'') fcs)
   \<and> (name \<noteq> Some ''navigateTo'' \<longrightarrow> app_onCommand name args = None)
   \<and> (args \<noteq> None \<longrightarrow> app_onCommand name args = None)
   \<and> (sessionPromise s = Fulfilled \<and> toolCall message = Some (Some (pre @ bad # post))
      \<and> (\<forall>fc\<in>set pre. onCommand (fc_name fc) (fc_args fc) = None)
      \<and> onCommand (fc_name bad) (fc_args bad) = Some e
    \<longrightarrow> fst (onmessage onCommand ctx message s) = Some e
        \<and> sent (snd (onmessage onCommand ctx message s)) =
            sent s @ map (\<lambda>fc. ToolResponse (fc_id fc) (fc_name fc) ''ok'') pre
        \<and> dispatched (snd (onmessage onCommand ctx message s)) =
            dispatched s @ map (\<lambda>fc. (fc_name fc, fc_args fc)) (pre @ [bad]))
   \<and> (app_onCommand name args = Some TypeError \<longleftrightarrow> name = Some ''navigateTo'' \<and> args = None)
   \<and> (app_onCommand name args = None \<longleftrightarrow> \<not> (name = Some ''navigateTo'' \<and> args = None))"
proof -
  have c1: "sessionPromise s = Fulfilled \<and> toolCall message = Some (Some fcs)
      \<and> (\<forall>fc\<in>set fcs. onCommand (fc_name fc) (fc_args fc) = None)
    \<longrightarrow> sent (snd (onmessage onCommand ctx message s)) =
          sent s @ map (\<lambda>fc. ToolResponse (fc_id fc) (fc_name fc) ''ok'') fcs"
  proof
    assume h: "sessionPromise s = Fulfilled \<and> toolCall message = Some (Some fcs)
        \<and> (\<forall>fc\<in>set fcs. onCommand (fc_name fc) (fc_args fc) = None)"
    then have p: "sessionPromise (transcription message s) = Fulfilled"
      by (simp add: sessionPromise_transcription)
    from h have all: "\<forall>fc\<in>set fcs. onCommand (fc_name fc) (fc_args fc) = None" by blast
    from h have t: "tool_call onCommand message (transcription message s) =
        function_calls onCommand fcs (transcription message s)"
      by (simp add: tool_call_def)
    from function_calls_acknowledged [OF p all]
    show "sent (snd (onmessage onCommand ctx message s)) =
            sent s @ map (\<lambda>fc. ToolResponse (fc_id fc) (fc_name fc) ''ok'') fcs"
      by (simp add: sent_onmessage t sent_transcription)
  qed
  have c2: "name \<noteq> Some ''navigateTo'' \<longrightarrow> app_onCommand name args = None"
    by (simp add: app_onCommand_def)
  have c3: "args \<noteq> None \<longrightarrow> app_onCommand name args = None"
    by (simp add: app_onCommand_def)
  have c4: "sessionPromise s = Fulfilled \<and> toolCall message = Some (Some (pre @ bad # post))
      \<and> (\<forall>fc\<in>set pre. onCommand (fc_name fc) (fc_args fc) = None)
      \<and> onCommand (fc_name bad) (fc_args bad) = Some e
    \<longrightarrow> fst (onmessage onCommand ctx message s) = Some e
        \<and> sent (snd (onmessage onCommand ctx message s)) =
            sent s @ map (\<lambda>fc. ToolResponse (fc_id fc) (fc_name fc) ''ok'') pre
        \<and> dispatched (snd (onmessage onCommand ctx message s)) =
            dispatched s @ map (\<lambda>fc. (fc_name fc, fc_args fc)) (pre @ [bad])"
  proof
    assume h: "sessionPromise s = Fulfilled \<and> toolCall message = Some (Some (pre @ bad # post))
      \<and> (\<forall>fc\<in>set pre. onCommand (fc_name fc) (fc_args fc) = None)
      \<and> onCommand (fc_name bad) (fc_args bad) = Some e"
    then have p: "sessionPromise (transcription message s) = Fulfilled"
      by (simp add: sessionPromise_transcription)
    from h have all: "\<forall>fc\<in>set pre. onCommand (fc_name fc) (fc_args fc) = None"
      and throws: "onCommand (fc_name bad) (fc_args bad) = Some e" by blast+
    from h have t: "tool_call onCommand message (transcription message s) =
        function_calls onCommand (pre @ bad # post) (transcription message s)"
      by (simp add: tool_call_def)
    note f = function_calls_throws [OF p all throws, of post]
    from f have "fst (tool_call onCommand message (transcription message s)) = Some e"
      by (simp only: t)
    then have o: "onmessage onCommand ctx message s =
        function_calls onCommand (pre @ bad # post) (transcription message s)"
      by (simp only: onmessage_tool_call_throws t)
    from f show "fst (onmessage onCommand ctx message s) = Some e
        \<and> sent (snd (onmessage onCommand ctx message s)) =
            sent s @ map (\<lambda>fc. ToolResponse (fc_id fc) (fc_name fc) ''ok'') pre
        \<and> dispatched (snd (onmessage onCommand ctx message s)) =
            dispatched s @ map (\<lambda>fc. (fc_name fc, fc_args fc)) (pre @ [bad])"
      by (simp only: o sent_transcription dispatched_transcription)
  qed
  have c5: "app_onCommand name args = Some TypeError \<longleftrightarrow> name = Some ''navigateTo'' \<and> args = None"
    by (simp add: app_onCommand_def)
  have c6: "app_onCommand name args = None \<longleftrightarrow> \<not> (name = Some ''navigateTo'' \<and> args = None)"
    by (simp add: app_onCommand_def)
  from c1 c2 c3 c4 c5 c6 show ?thesis by (intro conjI)
qed

theorem tool_calls_acknowledged_witness:
  "sessionPromise (snd (startSession all_granted initial)) = Fulfilled
   \<and> toolCall (tool_call_message
        [\<lparr>fc_id = Some ''a'', fc_name = Some ''selfDestruct'', fc_args = None\<rparr>,
         \<lparr>fc_id = Some ''b'', fc_name = Some ''navigateTo'',
          fc_args = Some [(''section'', ''work'')]\<rparr>]) =
      Some (Some [\<lparr>fc_id = Some ''a'', fc_name = Some ''selfDestruct'', fc_args = None\<rparr>,
         \<lparr>fc_id = Some ''b'', fc_name = Some ''navigateTo'',
          fc_args = Some [(''section'', ''work'')]\<rparr>])
   \<and> Some ''selfDestruct'' \<noteq> Some ''navigateTo''
   \<and> app_onCommand (Some ''selfDestruct'') None = None
   \<and> Some [(''section'', ''work'')] \<noteq> None
   \<and> app_onCommand (Some ''navigateTo'') (Some [(''section'', ''work'')]) = None
   \<and> sent (snd (onmessage app_onCommand (standard_context 0)
        (tool_call_message
          [\<lparr>fc_id = Some ''a'', fc_name = Some ''selfDestruct'', fc_args = None\<rparr>,
           \<lparr>fc_id = Some ''b'', fc_name = Some ''navigateTo'',
            fc_args = Some [(''section'', ''work'')]\<rparr>])
        (snd (startSession all_granted initial)))) =
      [ToolResponse (Some ''a'') (Some ''selfDestruct'') ''ok'',
       ToolResponse (Some ''b'') (Some ''navigateTo'') ''ok'']
   \<and> app_onCommand (Some ''navigateTo'') None = Some TypeError
   \<and> toolCall (tool_call_message
        [\<lparr>fc_id = Some ''a'', fc_name = Some ''selfDestruct'', fc_args = None\<rparr>,
         \<lparr>fc_id = Some ''b'', fc_name = Some ''navigateTo'', fc_args = None\<rparr>,
         \<lparr>fc_id = Some ''c'', fc_name = Some ''toggleTheme'', fc_args = None\<rparr>]) =
      Some (Some ([\<lparr>fc_id = Some ''a'', fc_name = Some ''selfDestruct'', fc_args = None\<rparr>]
         @ \<lparr>fc_id = Some ''b'', fc_name = Some ''navigateTo'', fc_args = None\<rparr>
         # [\<lparr>fc_id = Some ''c'', fc_name = Some ''toggleTheme'', fc_args = None\<rparr>]))
   \<and> fst (onmessage app_onCommand (standard_context 0)
        (tool_call_message
          [\<lparr>fc_id = Some ''a'', fc_name = Some ''selfDestruct'', fc_args = None\<rparr>,
           \<lparr>fc_id = Some ''b'', fc_name = Some ''navigateTo'', fc_args = None\<rparr>,
           \<lparr>fc_id = Some ''c'', fc_name = Some ''toggleTheme'', fc_args = None\<rparr>])
        (snd (startSession all_granted initial))) = Some TypeError
   \<and> sent (snd (onmessage app_onCommand (standard_context 0)
        (tool_call_message
          [\<lparr>fc_id = Some ''a'', fc_name = Some ''selfDestruct'', fc_args = None\<rparr>,
           \<lparr>fc_id = Some ''b'', fc_name = Some ''navigateTo'', fc_args = None\<rparr>,
           \<lparr>fc_id = Some ''c'', fc_name = Some ''toggleTheme'', fc_args = None\<rparr>])
        (snd (startSession all_granted initial)))) =
      [ToolResponse (Some ''a'') (Some ''selfDestruct'') ''ok'']
   \<and> dispatched (snd (onmessage app_onCommand (standard_context 0)
        (tool_call_message
          [\<lparr>fc_id = Some ''a'', fc_name = Some ''selfDestruct'', fc_args = None\<rparr>,
           \<lparr>fc_id = Some ''b'', fc_name = Some ''navigateTo'', fc_args = None\<rparr>,
           \<lparr>fc_id = Some ''c'', fc_name = Some ''toggleTheme'', fc_args = None\<rparr>])
        (snd (startSession all_granted initial)))) =
      [(Some ''selfDestruct'', None), (Some ''navigateTo'', None)]"
proof -
  let ?fcs = "[\<lparr>fc_id = Some ''a'', fc_name = Some ''selfDestruct'', fc_args = None\<rparr>,
         \<lparr>fc_id = Some ''b'', fc_name = Some ''navigateTo'',
          fc_args = Some [(''section'', ''work'')]\<rparr>]"
  let ?pre = "[\<lparr>fc_id = Some ''a'', fc_name = Some ''selfDestruct'', fc_args = None\<rparr>]"
  let ?bad = "\<lparr>fc_id = Some ''b'', fc_name = Some ''navigateTo'', fc_args = None\<rparr>"
  let ?post = "[\<lparr>fc_id = Some ''c'', fc_name = Some ''toggleTheme'', fc_args = None\<rparr>]"
  let ?all = "[\<lparr>fc_id = Some ''a'', fc_name = Some ''selfDestruct'', fc_args = None\<rparr>,
           \<lparr>fc_id = Some ''b'', fc_name = Some ''navigateTo'', fc_args = None\<rparr>,
           \<lparr>fc_id = Some ''c'', fc_name = Some ''toggleTheme'', fc_args = None\<rparr>]"
  let ?s = "snd (startSession all_granted initial)"
  let ?m = "tool_call_message ?all"
  note t = tool_calls_acknowledged
  have n: "Some ''selfDestruct'' \<noteq> Some ''navigateTo''"
    "Some [(''section'', ''work'')] \<noteq> (None :: (string \<times> string) list option)"
    by simp_all
  have a1: "app_onCommand (Some ''selfDestruct'') None = None"
    by (rule t [where name = "Some ''selfDestruct''" and args = None,
          THEN conjunct2, THEN conjunct1, THEN mp, OF n(1)])
  have a2: "app_onCommand (Some ''navigateTo'') (Some [(''section'', ''work'')]) = None"
    by (rule t [where name = "Some ''navigateTo''" and args = "Some [(''section'', ''work'')]",
          THEN conjunct2, THEN conjunct2, THEN conjunct1, THEN mp, OF n(2)])
  have a3: "app_onCommand (Some ''navigateTo'') None = Some TypeError"
    by (rule t [where name = "Some ''navigateTo''" and args = None,
          THEN conjunct2, THEN conjunct2, THEN conjunct2, THEN conjunct2, THEN conjunct1,
          THEN iffD2, OF conjI, OF refl refl])
  have f: "sessionPromise ?s = Fulfilled" unfolding opened_session by (simp add: initial_def)
  have h: "sessionPromise ?s = Fulfilled \<and> toolCall (tool_call_message ?fcs) = Some (Some ?fcs)
      \<and> (\<forall>fc\<in>set ?fcs. app_onCommand (fc_name fc) (fc_args fc) = None)"
    by (simp add: f tool_call_message_def a1 a2)
  have e: "sent ?s = []" "dispatched ?s = []"
    unfolding opened_session by (simp_all add: initial_def)
  have "sent (snd (onmessage app_onCommand (standard_context 0) (tool_call_message ?fcs) ?s)) =
          sent ?s @ map (\<lambda>fc. ToolResponse (fc_id fc) (fc_name fc) ''ok'') ?fcs"
    by (rule t [where s = ?s and message = "tool_call_message ?fcs" and fcs = ?fcs
          and onCommand = app_onCommand and ctx = "standard_context 0",
          THEN conjunct1, THEN mp, OF h])
  then have r1: "sent (snd (onmessage app_onCommand (standard_context 0) (tool_call_message ?fcs) ?s)) =
      [ToolResponse (Some ''a'') (Some ''selfDestruct'') ''ok'',
       ToolResponse (Some ''b'') (Some ''navigateTo'') ''ok'']"
    by (simp add: e)
  have m: "toolCall ?m = Some (Some (?pre @ ?bad # ?post))"
    by (simp add: tool_call_message_def)
  have g: "sessionPromise ?s = Fulfilled \<and> toolCall ?m = Some (Some (?pre @ ?bad # ?post))
      \<and> (\<forall>fc\<in>set ?pre. app_onCommand (fc_name fc) (fc_args fc) = None)
      \<and> app_onCommand (fc_name ?bad) (fc_args ?bad) = Some TypeError"
    by (simp add: f m a1 a3)
  note r = t [where s = ?s and message = ?m and pre = ?pre and bad = ?bad and post = ?post
      and onCommand = app_onCommand and ctx = "standard_context 0" and e = TypeError,
      THEN conjunct2, THEN conjunct2, THEN conjunct2, THEN conjunct1, THEN mp, OF g]
  have r2: "fst (onmessage app_onCommand (standard_context 0) ?m ?s) = Some TypeError"
    by (rule r [THEN conjunct1])
  have r3: "sent (snd (onmessage app_onCommand (standard_context 0) ?m ?s)) =
      [ToolResponse (Some ''a'') (Some ''selfDestruct'') ''ok'']"
    using r [THEN conjunct2, THEN conjunct1] by (simp add: e)
  have r4: "dispatched (snd (onmessage app_onCommand (standard_context 0) ?m ?s)) =
      [(Some ''selfDestruct'', None), (Some ''navigateTo'', None)]"
    using r [THEN conjunct2, THEN conjunct2] by (simp add: e)
  have h2: "toolCall (tool_call_message ?fcs) = Some (Some ?fcs)"
    by (rule h [THEN conjunct2, THEN conjunct1])
  from f h2 n a1 a2 r1 a3 m r2 r3 r4 show ?thesis by (intro conjI)
qed

section \<open>Properties of the session life cycle\<close>

lemma cleanup_fields:
  "sessionRef (cleanup s) = False"
  "connectionOpen (cleanup s) = (connectionOpen s \<and> \<not> sessionRef s)"
  "isActive (cleanup s) = False"
  "isConnecting (cleanup s) = False"
  "transcript (cleanup s) = []"
  "sources (cleanup s) = []"
  "stopped (cleanup s) = stopped s @ map node_id (sources s)"
  "captureNodes (cleanup s) = captureNodes s"
  "scriptProcessors (cleanup s) = scriptProcessors s"
  "liveMicStreams (cleanup s) = liveMicStreams s"
  "audioContexts (cleanup s) = audioContexts s"
  "sessionPromise (cleanup s) = sessionPromise s"
  "sent (cleanup s) = sent s"
  "nextStartTime (cleanup s) = nextStartTime s"
  by (simp_all add: cleanup_def captureNodes_def Let_def)

lemma cleanup_idle:
  "\<not> sessionRef s \<Longrightarrow> \<not> isActive s \<Longrightarrow> \<not> isConnecting s \<Longrightarrow> transcript s = [] \<Longrightarrow>
   sources s = [] \<Longrightarrow> cleanup s = s"
  by (simp add: cleanup_def Let_def)

lemma cleanup_idempotent: "cleanup (cleanup s) = cleanup s"
  by (rule cleanup_idle) (simp_all add: cleanup_fields)

lemma startSession_fails_iff:
  "fst (startSession env s) \<noteq> None \<longleftrightarrow>
   (\<not> audioContexts s \<and> \<not> audioInitOk env) \<or> \<not> micGranted env \<or> \<not> connectAccepted env"
  by (simp add: startSession_def Let_def)

lemma startSession_failure_cleanup:
  "fst (startSession env s) \<noteq> None \<Longrightarrow> \<exists>s1. snd (startSession env s) = cleanup s1"
  by (auto simp: startSession_def Let_def split: if_splits)

lemma startSession_denied:
  "audioContexts s \<or> audioInitOk env \<Longrightarrow> \<not> micGranted env \<Longrightarrow>
   startSession env s =
     (Some NotAllowedError, cleanup (s\<lparr>isConnecting := True, audioContexts := True\<rparr>))"
  by (auto simp: startSession_def Let_def)

text \<open>
  Claim C6 says that a failing \<^verbatim>\<open>open()\<close> leaves no partial state.  When the
  microphone is granted and the connection is then refused, the \<^verbatim>\<open>catch\<close>
  block runs \<^verbatim>\<open>cleanup\<close>, which knows nothing of the stream that
  \<^verbatim>\<open>getUserMedia\<close> returned: the stream stays live although there is no
  session.
\<close>

theorem startSession_refused_counterexample:
  "fst (startSession \<lparr>audioInitOk = True, micGranted = True, connectAccepted = False\<rparr> initial) =
     Some ConnectError
   \<and> liveMicStreams initial = 0
   \<and> liveMicStreams (snd (startSession
        \<lparr>audioInitOk = True, micGranted = True, connectAccepted = False\<rparr> initial)) = 1
   \<and> \<not> sessionRef (snd (startSession
        \<lparr>audioInitOk = True, micGranted = True, connectAccepted = False\<rparr> initial))
   \<and> \<not> isActive (snd (startSession
        \<lparr>audioInitOk = True, micGranted = True, connectAccepted = False\<rparr> initial))"
  by (simp add: startSession_def initial_def cleanup_def Let_def)

text \<open>
  Claim C6, amended: \<^verbatim>\<open>startSession\<close> fails exactly when the audio contexts
  cannot be created, the microphone is refused or the connection is refused;
  every such failure ends in \<^verbatim>\<open>cleanup\<close> and leaves the component idle
  (neither active nor connecting), without a session reference, with an empty
  transcript and no playing source.  When the microphone is refused, no
  connection has been asked for, no microphone stream has been handed out and
  no capture node has been connected; from the state of a freshly mounted
  component only the audio contexts, kept for the next attempt, remain.
\<close>

theorem startSession_failure_idle:
  "(fst (startSession env s) \<noteq> None \<longleftrightarrow>
      (\<not> audioContexts s \<and> \<not> audioInitOk env) \<or> \<not> micGranted env \<or> \<not> connectAccepted env)
   \<and> (fst (startSession env s) \<noteq> None \<longrightarrow>
        \<not> isActive (snd (startSession env s)) \<and> \<not> isConnecting (snd (startSession env s))
        \<and> \<not> sessionRef (snd (startSession env s))
        \<and> transcript (snd (startSession env s)) = []
        \<and> sources (snd (startSession env s)) = []
        \<and> cleanup (snd (startSession env s)) = snd (startSession env s))
   \<and> ((audioContexts s \<or> audioInitOk env) \<and> \<not> micGranted env \<longrightarrow>
        startSession env s =
          (Some NotAllowedError, cleanup (s\<lparr>isConnecting := True, audioContexts := True\<rparr>))
        \<and> sessionPromise (snd (startSession env s)) = sessionPromise s
        \<and> sent (snd (startSession env s)) = sent s
        \<and> liveMicStreams (snd (startSession env s)) = liveMicStreams s
        \<and> captureNodes (snd (startSession env s)) = captureNodes s)
   \<and> (audioInitOk env \<and> \<not> micGranted env \<longrightarrow>
        startSession env initial = (Some NotAllowedError, initial\<lparr>audioContexts := True\<rparr>))"
proof (intro conjI impI)
  show "fst (startSession env s) \<noteq> None \<longleftrightarrow>
      (\<not> audioContexts s \<and> \<not> audioInitOk env) \<or> \<not> micGranted env \<or> \<not> connectAccepted env"
    by (rule startSession_fails_iff)
next
  assume "fst (startSession env s) \<noteq> None"
  then obtain s1 where s1: "snd (startSession env s) = cleanup s1"
    using startSession_failure_cleanup by blast
  show "\<not> isActive (snd (startSession env s))" "\<not> isConnecting (snd (startSession env s))"
    "\<not> sessionRef (snd (startSession env s))" "transcript (snd (startSession env s)) = []"
    "sources (snd (startSession env s)) = []"
    "cleanup (snd (startSession env s)) = snd (startSession env s)"
    by (simp_all add: s1 cleanup_fields cleanup_idempotent)
next
  assume h: "(audioContexts s \<or> audioInitOk env) \<and> \<not> micGranted env"
  then have r: "startSession env s =
          (Some NotAllowedError, cleanup (s\<lparr>isConnecting := True, audioContexts := True\<rparr>))"
    by (simp add: startSession_denied)
  show "startSession env s =
          (Some NotAllowedError, cleanup (s\<lparr>isConnecting := True, audioContexts := True\<rparr>))"
    by (rule r)
  show "sessionPromise (snd (startSession env s)) = sessionPromise s"
    "sent (snd (startSession env s)) = sent s"
    "liveMicStreams (snd (startSession env s)) = liveMicStreams s"
    "captureNodes (snd (startSession env s)) = captureNodes s"
    by (simp_all add: r cleanup_fields captureNodes_def)
next
  assume h: "audioInitOk env \<and> \<not> micGranted env"
  then have "startSession env initial =
      (Some NotAllowedError, cleanup (initial\<lparr>isConnecting := True, audioContexts := True\<rparr>))"
    by (simp add: startSession_denied)
  moreover have "cleanup (initial\<lparr>isConnecting := True, audioContexts := True\<rparr>) =
      initial\<lparr>audioContexts := True\<rparr>"
    by (simp add: cleanup_def initial_def Let_def)
  ultimately show "startSession env initial = (Some NotAllowedError, initial\<lparr>audioContexts := True\<rparr>)"
    by simp
qed

theorem startSession_failure_idle_witness:
  "fst (startSession \<lparr>audioInitOk = True, micGranted = False, connectAccepted = True\<rparr> two_segments)
     \<noteq> None
   \<and> (audioContexts two_segments
        \<or> audioInitOk \<lparr>audioInitOk = True, micGranted = False, connectAccepted = True\<rparr>)
   \<and> \<not> micGranted \<lparr>audioInitOk = True, micGranted = False, connectAccepted = True\<rparr>
   \<and> \<not> isActive (snd (startSession
          \<lparr>audioInitOk = True, micGranted = False, connectAccepted = True\<rparr> two_segments))
   \<and> sources (snd (startSession
          \<lparr>audioInitOk = True, micGranted = False, connectAccepted = True\<rparr> two_segments)) = []
   \<and> liveMicStreams (snd (startSession
          \<lparr>audioInitOk = True, micGranted = False, connectAccepted = True\<rparr> two_segments)) =
      liveMicStreams two_segments
   \<and> startSession \<lparr>audioInitOk = True, micGranted = False, connectAccepted = True\<rparr> initial =
       (Some NotAllowedError, initial\<lparr>audioContexts := True\<rparr>)"
proof -
  let ?env = "\<lparr>audioInitOk = True, micGranted = False, connectAccepted = True\<rparr>"
  note t = startSession_failure_idle [of ?env two_segments]
  have h: "(audioContexts two_segments \<or> audioInitOk ?env) \<and> \<not> micGranted ?env"
    "audioInitOk ?env \<and> \<not> micGranted ?env" by simp_all
  from t h have f: "fst (startSession ?env two_segments) \<noteq> None" by blast
  from t f have a: "\<not> isActive (snd (startSession ?env two_segments))"
    "sources (snd (startSession ?env two_segments)) = []" by blast+
  from t h have l: "liveMicStreams (snd (startSession ?env two_segments)) =
      liveMicStreams two_segments" by blast
  from t h have i: "startSession ?env initial = (Some NotAllowedError, initial\<lparr>audioContexts := True\<rparr>)"
    by blast
  from f h a l i show ?thesis by blast
qed

text \<open>
  Claim C7 says that \<^verbatim>\<open>cleanup\<close> stops the capture stream, resets the
  cursor as an interruption does and releases the output device.  The function
  touches none of these: with a session open and two buffers scheduled, the
  capture node and the microphone stream are still there after it, the audio
  contexts are kept, and the cursor stays at 1.5 s, where an interruption
  would have put it to 0.
\<close>

theorem cleanup_keeps_capture_counterexample:
  "captureNodes (cleanup two_segments) = 1
   \<and> liveMicStreams (cleanup two_segments) = 1
   \<and> audioContexts (cleanup two_segments)
   \<and> nextStartTime (cleanup two_segments) = 3 / 2
   \<and> nextStartTime (interrupt two_segments) = 0"
  unfolding two_segments_eq
  by (simp add: cleanup_def interrupt_def initial_def captureNodes_def Let_def)

text \<open>
  Claim C7, amended: \<^verbatim>\<open>cleanup\<close>, in any state, closes the connection if a
  session reference is held and drops the reference, leaves the component
  neither active nor connecting, clears the transcript, calls \<^verbatim>\<open>stop\<close> on
  every active source node and empties \<^verbatim>\<open>sources\<close>; it is idempotent, and
  changes nothing in an idle state.  The capture node, the microphone stream
  and the audio contexts are left as they are.
\<close>

theorem cleanup_idle_idempotent:
  "sessionRef (cleanup s) = False
   \<and> connectionOpen (cleanup s) = (connectionOpen s \<and> \<not> sessionRef s)
   \<and> isActive (cleanup s) = False \<and> isConnecting (cleanup s) = False
   \<and> transcript (cleanup s) = []
   \<and> sources (cleanup s) = []
   \<and> stopped (cleanup s) = stopped s @ map node_id (sources s)
   \<and> cleanup (cleanup s) = cleanup s
   \<and> (\<not> sessionRef s \<and> \<not> isActive s \<and> \<not> isConnecting s \<and> transcript s = []
        \<and> sources s = [] \<longrightarrow> cleanup s = s)
   \<and> captureNodes (cleanup s) = captureNodes s
   \<and> liveMicStreams (cleanup s) = liveMicStreams s
   \<and> audioContexts (cleanup s) = audioContexts s
   \<and> onerror s = cleanup s \<and> onclose s = cleanup s
   \<and> (isActive s \<longrightarrow> toggleVoice env s = cleanup s)"
  using cleanup_idle [of s]
  by (simp add: cleanup_fields cleanup_idempotent onerror_def onclose_def toggleVoice_def)

theorem cleanup_idle_idempotent_witness:
  "\<not> sessionRef initial \<and> \<not> isActive initial \<and> \<not> isConnecting initial
   \<and> transcript initial = [] \<and> sources initial = []
   \<and> cleanup initial = initial
   \<and> isActive two_segments
   \<and> toggleVoice all_granted two_segments = cleanup two_segments
   \<and> sources (cleanup two_segments) = []
   \<and> stopped (cleanup two_segments) = [0, 1]
   \<and> connectionOpen (cleanup two_segments) = False
   \<and> cleanup (cleanup two_segments) = cleanup two_segments"
proof -
  note t1 = cleanup_idle_idempotent [of initial all_granted]
  note t2 = cleanup_idle_idempotent [of two_segments all_granted]
  have h: "\<not> sessionRef initial \<and> \<not> isActive initial \<and> \<not> isConnecting initial
      \<and> transcript initial = [] \<and> sources initial = []"
    by (simp add: initial_def)
  have v: "isActive two_segments" "sessionRef two_segments"
    "stopped two_segments @ map node_id (sources two_segments) = [0, 1]"
    unfolding two_segments_eq by (simp_all add: initial_def)
  from t1 h have 1: "cleanup initial = initial" by blast
  from t2 v(1) have 2: "toggleVoice all_granted two_segments = cleanup two_segments" by blast
  from t2 have 3: "sources (cleanup two_segments) = []"
    and 4: "stopped (cleanup two_segments) =
            stopped two_segments @ map node_id (sources two_segments)"
    and 5: "connectionOpen (cleanup two_segments) =
            (connectionOpen two_segments \<and> \<not> sessionRef two_segments)"
    and 6: "cleanup (cleanup two_segments) = cleanup two_segments"
    by blast+
  from 4 have r4: "stopped (cleanup two_segments) = [0, 1]" by (simp only: v)
  from 5 v(2) have r5: "connectionOpen (cleanup two_segments) = False" by simp
  from h 1 v(1) 2 3 r4 r5 6 show ?thesis by blast
qed

end
